theory Spec2Isabelle
  imports Main
begin

section \<open>JavaScript values\<close>

text \<open>
  The values that flow through \<^verbatim>\<open>createCssVarsProvider.js\<close>: themes, color schemes and
  the objects built from them. An object is the list of its own enumerable string-keyed
  properties in the order \<^verbatim>\<open>Object.entries\<close> reports them. A number is held by the
  string \<^verbatim>\<open>String()\<close> gives for it, a function by its source text and its own enumerable
  properties. An array is the object of its indices. Properties that are not enumerable
  are not listed, and what a value inherits from its prototype chain is a parameter of
  the one read that can reach it, in the section on inherited properties.
\<close>

datatype jsval =
    JUndefined
  | JNull
  | JBool bool
  | JNum string
  | JStr string
  | JObj "(string \<times> jsval) list"
  | JFun string "(string \<times> jsval) list"

type_synonym obj = "(string \<times> jsval) list"

datatype error = TypeError | MuiError string | NotFoundError

fun typeof :: "jsval \<Rightarrow> string" where
  "typeof JUndefined = ''undefined''"
| "typeof JNull = ''object''"
| "typeof (JBool b) = ''boolean''"
| "typeof (JNum n) = ''number''"
| "typeof (JStr s) = ''string''"
| "typeof (JObj kvs) = ''object''"
| "typeof (JFun src kvs) = ''function''"

fun truthy :: "jsval \<Rightarrow> bool" where
  "truthy JUndefined = False"
| "truthy JNull = False"
| "truthy (JBool b) = b"
| "truthy (JNum n) = (n \<noteq> ''0'' \<and> n \<noteq> ''NaN'')"
| "truthy (JStr s) = (s \<noteq> [])"
| "truthy (JObj kvs) = True"
| "truthy (JFun src kvs) = True"

text \<open>A value of type \<^verbatim>\<open>string | undefined\<close>, as the color-scheme hook returns them.\<close>

fun truthy_str :: "string option \<Rightarrow> bool" where
  "truthy_str None = False"
| "truthy_str (Some s) = (s \<noteq> [])"

fun of_str :: "string option \<Rightarrow> jsval" where
  "of_str None = JUndefined"
| "of_str (Some s) = JStr s"

subsection \<open>Own properties\<close>

definition obj_get :: "obj \<Rightarrow> string \<Rightarrow> jsval" where
  "obj_get kvs k = (case map_of kvs k of None \<Rightarrow> JUndefined | Some v \<Rightarrow> v)"

text \<open>\<^verbatim>\<open>o[k] = v\<close>: an existing key keeps its place, a new key goes last.\<close>

primrec obj_set :: "obj \<Rightarrow> string \<Rightarrow> jsval \<Rightarrow> obj" where
  "obj_set [] k v = [(k, v)]"
| "obj_set (p # ps) k v = (if fst p = k then (k, v) # ps else p # obj_set ps k v)"

text \<open>\<^verbatim>\<open>{...target, ...source}\<close>: the properties of the source are set one by one, in order.\<close>

primrec spread :: "obj \<Rightarrow> obj \<Rightarrow> obj" where
  "spread target [] = target"
| "spread target (p # ps) = spread (obj_set target (fst p) (snd p)) ps"

text \<open>Decimal digits of an array index, as a property key.\<close>

function string_of_nat :: "nat \<Rightarrow> string" where
  "string_of_nat n =
     (if n < 10 then [char_of (48 + n)]
      else string_of_nat (n div 10) @ [char_of (48 + n mod 10)])"
  by pat_completeness auto
termination
  by (relation "measure id") auto

declare string_of_nat.simps [simp del]

text \<open>The indexed characters of a primitive string, which are its own enumerable properties.\<close>

definition str_entries :: "string \<Rightarrow> obj" where
  "str_entries s = map (\<lambda>i. (string_of_nat i, JStr [s ! i])) [0..<length s]"

text \<open>
  \<^verbatim>\<open>Object.entries(v)\<close>, which throws on \<^verbatim>\<open>undefined\<close> and \<^verbatim>\<open>null\<close>; \<^verbatim>\<open>Object.keys(v)\<close> is the list
  of its first components.
\<close>

fun Object_entries :: "jsval \<Rightarrow> error + obj" where
  "Object_entries JUndefined = Inl TypeError"
| "Object_entries JNull = Inl TypeError"
| "Object_entries (JBool b) = Inr []"
| "Object_entries (JNum n) = Inr []"
| "Object_entries (JStr s) = Inr (str_entries s)"
| "Object_entries (JObj kvs) = Inr kvs"
| "Object_entries (JFun src kvs) = Inr kvs"

text \<open>\<^verbatim>\<open>v[k]\<close> and \<^verbatim>\<open>v.k\<close>: a read from \<^verbatim>\<open>undefined\<close> or \<^verbatim>\<open>null\<close> throws.\<close>

fun get_prop :: "jsval \<Rightarrow> string \<Rightarrow> error + jsval" where
  "get_prop JUndefined k = Inl TypeError"
| "get_prop JNull k = Inl TypeError"
| "get_prop (JBool b) k = Inr JUndefined"
| "get_prop (JNum n) k = Inr JUndefined"
| "get_prop (JStr s) k =
     Inr (if k = ''length'' then JNum (string_of_nat (length s)) else obj_get (str_entries s) k)"
| "get_prop (JObj kvs) k = Inr (obj_get kvs k)"
| "get_prop (JFun src kvs) k = Inr (obj_get kvs k)"

text \<open>\<^verbatim>\<open>v?.k\<close>: \<^verbatim>\<open>undefined\<close> instead of the throw.\<close>

definition get_prop_opt :: "jsval \<Rightarrow> string \<Rightarrow> jsval" where
  "get_prop_opt v k = (case get_prop v k of Inl e \<Rightarrow> JUndefined | Inr x \<Rightarrow> x)"

text \<open>
  \<^verbatim>\<open>v.k = x\<close> in strict mode (the file is an ES module): a property cannot be created on
  a primitive.
\<close>

fun set_prop :: "jsval \<Rightarrow> string \<Rightarrow> jsval \<Rightarrow> error + jsval" where
  "set_prop (JObj kvs) k x = Inr (JObj (obj_set kvs k x))"
| "set_prop (JFun src kvs) k x = Inr (JFun src (obj_set kvs k x))"
| "set_prop v k x = Inl TypeError"

text \<open>
  The property key a value is converted to in \<^verbatim>\<open>o[v]\<close>, and its text in a template literal.
  An object and a function are converted by the \<^verbatim>\<open>toString\<close> they inherit; one with a
  \<^verbatim>\<open>toString\<close> or \<^verbatim>\<open>valueOf\<close> of its own is outside the function.
\<close>

fun to_string :: "jsval \<Rightarrow> string" where
  "to_string JUndefined = ''undefined''"
| "to_string JNull = ''null''"
| "to_string (JBool b) = (if b then ''true'' else ''false'')"
| "to_string (JNum n) = n"
| "to_string (JStr s) = s"
| "to_string (JObj kvs) = ''[object Object]''"
| "to_string (JFun src kvs) = src"

subsection \<open>Inherited properties\<close>

text \<open>
  The own properties that the model lists for a value: the enumerable ones of an object
  or a function, and the length and the indexed characters of a string.
\<close>

fun own_properties :: "jsval \<Rightarrow> obj" where
  "own_properties (JObj kvs) = kvs"
| "own_properties (JFun src kvs) = kvs"
| "own_properties (JStr s) = (''length'', JNum (string_of_nat (length s))) # str_entries s"
| "own_properties v = []"

text \<open>
  \<^verbatim>\<open>v[k]\<close> with a computed key \<open>k\<close>, which can be any name: the read finds an own property
  first and goes up the prototype chain of \<open>v\<close> otherwise. What the chain holds belongs to
  the engine and not to the module, so it is a parameter: \<open>inh v k\<close> is what the read
  finds for a name \<open>k\<close> that is none of the own properties above, \<^verbatim>\<open>undefined\<close> when there
  is nothing. Every other read of the module has a fixed name (\<^verbatim>\<open>colorSchemes\<close>,
  \<^verbatim>\<open>components\<close>, \<^verbatim>\<open>palette\<close>, \<^verbatim>\<open>light\<close>, \<^verbatim>\<open>dark\<close>), which no built-in prototype carries, and is
  a read of the own properties.
\<close>

definition index_prop :: "(jsval \<Rightarrow> string \<Rightarrow> jsval) \<Rightarrow> jsval \<Rightarrow> string \<Rightarrow> error + jsval" where
  "index_prop inh v k =
     (case get_prop v k of
        Inl e \<Rightarrow> Inl e
      | Inr x \<Rightarrow> Inr (if k \<in> set (map fst (own_properties v)) then x else inh v k))"

section \<open>What the module imports\<close>

text \<open>
  \<^verbatim>\<open>cssVarsParser\<close>, \<^verbatim>\<open>deepmerge\<close>, \<^verbatim>\<open>useCurrentColorScheme\<close>, \<^verbatim>\<open>createGetCssVar\<close>,
  \<^verbatim>\<open>getInitColorSchemeScript\<close> and its two constants are imported from files that are
  not among the sources, so the provider is parameterised by them. The parser takes its
  options \<^verbatim>\<open>{prefix, basePrefix, shouldSkipGeneratingVar}\<close> and the hook its argument
  \<^verbatim>\<open>{supportedColorSchemes, defaultLightColorScheme, defaultDarkColorScheme,
  modeStorageKey, defaultMode}\<close> one by one, in that order. A parser may throw. With the
  imports comes the engine the module runs on, of which only the prototype chains
  matter: \<open>inherited\<close> is the parameter of \<open>index_prop\<close>.
\<close>

type_synonym skip = "string list \<Rightarrow> jsval \<Rightarrow> bool"

record parsed =
  css :: jsval
  vars :: jsval
  parsedTheme :: obj

text \<open>
  The state \<^verbatim>\<open>useCurrentColorScheme\<close> returns. The fields up to \<^verbatim>\<open>setColorScheme\<close> are
  also those of the context value; \<open>'f\<close> is the type of the two setters.
\<close>

record 'f scheme_state =
  mode :: "string option"
  setMode :: 'f
  lightColorScheme :: "string option"
  darkColorScheme :: "string option"
  colorScheme :: "string option"
  setColorScheme :: 'f

record 'f current = "'f scheme_state" +
  systemMode :: "string option"

record 'f context_value = "'f scheme_state" +
  allColorSchemes :: "string list"

record ('f, 'g) deps =
  cssVarsParser :: "jsval \<Rightarrow> string \<Rightarrow> string \<Rightarrow> skip option \<Rightarrow> error + parsed"
  deepmerge :: "jsval \<Rightarrow> jsval \<Rightarrow> jsval"
  useCurrentColorScheme :: "string list \<Rightarrow> jsval \<Rightarrow> jsval \<Rightarrow> string \<Rightarrow> string \<Rightarrow> 'f current"
  createGetCssVar :: "string \<Rightarrow> jsval"
  getInitColorSchemeScript :: 'g
  DEFAULT_ATTRIBUTE :: string
  DEFAULT_MODE_STORAGE_KEY :: string
  inherited :: "jsval \<Rightarrow> string \<Rightarrow> jsval"

section \<open>createCssVarsProvider\<close>

text \<open>
  The options of \<^verbatim>\<open>createCssVarsProvider\<close> and the props of \<^verbatim>\<open>CssVarsProvider\<close> share six
  fields. \<open>None\<close> (\<open>JUndefined\<close> for \<open>defaultColorScheme\<close>) is a field that is absent or
  \<^verbatim>\<open>undefined\<close>, which is when a destructuring default applies. The \<^verbatim>\<open>children\<close> prop is
  handed on untouched and left out.
\<close>

record config =
  theme :: "obj option"
  defaultMode :: "string option"
  defaultColorScheme :: jsval
  disableTransitionOnChange :: "bool option"
  enableColorScheme :: "bool option"
  prefix :: "string option"

record options = config +
  shouldSkipGeneratingVar :: "skip option"
  resolveTheme :: "(obj \<Rightarrow> obj) option"

record props = config +
  modeStorageKey :: "string option"
  attribute :: "string option"

definition DISABLE_CSS_TRANSITION :: string where
  "DISABLE_CSS_TRANSITION =
     ''*{-webkit-transition:none!important;-moz-transition:none!important;'' @
     ''-o-transition:none!important;-ms-transition:none!important;transition:none!important}''"

text \<open>Lines 19 to 28: the destructuring of \<^verbatim>\<open>options\<close> with its defaults.\<close>

definition defaultTheme :: "options \<Rightarrow> obj" where
  "defaultTheme opts = (case theme opts of None \<Rightarrow> [] | Some t \<Rightarrow> t)"

definition desisgnSystemMode :: "options \<Rightarrow> string" where
  "desisgnSystemMode opts = (case defaultMode opts of None \<Rightarrow> ''light'' | Some m \<Rightarrow> m)"

definition designSystemColorScheme :: "options \<Rightarrow> jsval" where
  "designSystemColorScheme opts = defaultColorScheme opts"

definition designSystemTransitionOnChange :: "options \<Rightarrow> bool" where
  "designSystemTransitionOnChange opts =
     (case disableTransitionOnChange opts of None \<Rightarrow> False | Some b \<Rightarrow> b)"

definition designSystemEnableColorScheme :: "options \<Rightarrow> bool" where
  "designSystemEnableColorScheme opts =
     (case enableColorScheme opts of None \<Rightarrow> True | Some b \<Rightarrow> b)"

definition designSystemPrefix :: "options \<Rightarrow> string" where
  "designSystemPrefix opts = (case prefix opts of None \<Rightarrow> [] | Some p \<Rightarrow> p)"

text \<open>
  Lines 30 to 38, the condition under which the diagnostic is logged. \<^verbatim>\<open>||\<close> and \<^verbatim>\<open>&&\<close>
  short-circuit, so the registry is indexed only once it is known to be truthy, when the
  read cannot throw; the optional chaining never throws. The index is converted to a
  property key, and the read goes up the prototype chain of the registry.
\<close>

definition registry_has :: "(jsval \<Rightarrow> string \<Rightarrow> jsval) \<Rightarrow> jsval \<Rightarrow> jsval \<Rightarrow> bool" where
  "registry_has inh schemes name =
     (case index_prop inh schemes (to_string name) of Inl e \<Rightarrow> False | Inr x \<Rightarrow> truthy x)"

definition default_scheme_missing :: "('f, 'g) deps \<Rightarrow> options \<Rightarrow> bool" where
  "default_scheme_missing deps opts =
     (let schemes = obj_get (defaultTheme opts) ''colorSchemes'';
          scheme = designSystemColorScheme opts
      in \<not> truthy schemes \<or>
         (typeof scheme = ''string'' \<and> \<not> registry_has (inherited deps) schemes scheme) \<or>
         (typeof scheme = ''object'' \<and>
            \<not> registry_has (inherited deps) schemes (get_prop_opt scheme ''light'')) \<or>
         (typeof scheme = ''object'' \<and>
            \<not> registry_has (inherited deps) schemes (get_prop_opt scheme ''dark'')))"

text \<open>\<^verbatim>\<open>console.error\<close> with the one message of the module, which interpolates a value.\<close>

datatype console_entry = DoesNotExist string

definition validate :: "('f, 'g) deps \<Rightarrow> options \<Rightarrow> console_entry list" where
  "validate deps opts =
     (if default_scheme_missing deps opts
      then [DoesNotExist (''MUI: `'' @ to_string (designSystemColorScheme opts) @
              ''` does not exist in `theme.colorSchemes`.'')]
      else [])"

subsection \<open>useColorScheme\<close>

text \<open>
  \<^verbatim>\<open>React.useContext\<close> gives the value of the nearest enclosing provider of the context and
  the context's default without one. The list holds the values of the enclosing
  \<^verbatim>\<open>ColorSchemeContext.Provider\<close> elements, nearest first; the default passed to
  \<^verbatim>\<open>React.createContext\<close> is \<^verbatim>\<open>undefined\<close>, here \<open>None\<close>. The only provider of the context is
  the one \<^verbatim>\<open>CssVarsProvider\<close> renders, whose value is an object and so truthy.
\<close>

definition useContext :: "'a \<Rightarrow> 'a list \<Rightarrow> 'a" where
  "useContext dflt enclosing = (case enclosing of [] \<Rightarrow> dflt | v # _ \<Rightarrow> v)"

definition useColorScheme :: "'c list \<Rightarrow> error + 'c" where
  "useColorScheme enclosing =
     (case useContext None (map Some enclosing) of
        None \<Rightarrow> Inl (MuiError ''MUI: `useColorScheme` must be called under <CssVarsProvider />'')
      | Some v \<Rightarrow> Inr v)"

section \<open>CssVarsProvider: one render\<close>

text \<open>Lines 51 to 61: the props, each with the default taken from the options.\<close>

definition themeProp :: "options \<Rightarrow> props \<Rightarrow> obj" where
  "themeProp opts p = (case theme p of None \<Rightarrow> defaultTheme opts | Some t \<Rightarrow> t)"

definition prop_prefix :: "options \<Rightarrow> props \<Rightarrow> string" where
  "prop_prefix opts p = (case prefix p of None \<Rightarrow> designSystemPrefix opts | Some x \<Rightarrow> x)"

definition prop_modeStorageKey :: "('f, 'g) deps \<Rightarrow> props \<Rightarrow> string" where
  "prop_modeStorageKey deps p =
     (case modeStorageKey p of None \<Rightarrow> DEFAULT_MODE_STORAGE_KEY deps | Some x \<Rightarrow> x)"

definition prop_attribute :: "('f, 'g) deps \<Rightarrow> props \<Rightarrow> string" where
  "prop_attribute deps p = (case attribute p of None \<Rightarrow> DEFAULT_ATTRIBUTE deps | Some x \<Rightarrow> x)"

definition prop_defaultMode :: "options \<Rightarrow> props \<Rightarrow> string" where
  "prop_defaultMode opts p =
     (case defaultMode p of None \<Rightarrow> desisgnSystemMode opts | Some x \<Rightarrow> x)"

definition prop_defaultColorScheme :: "options \<Rightarrow> props \<Rightarrow> jsval" where
  "prop_defaultColorScheme opts p =
     (if defaultColorScheme p = JUndefined then designSystemColorScheme opts
      else defaultColorScheme p)"

definition prop_disableTransitionOnChange :: "options \<Rightarrow> props \<Rightarrow> bool" where
  "prop_disableTransitionOnChange opts p =
     (case disableTransitionOnChange p of None \<Rightarrow> designSystemTransitionOnChange opts
      | Some b \<Rightarrow> b)"

definition prop_enableColorScheme :: "options \<Rightarrow> props \<Rightarrow> bool" where
  "prop_enableColorScheme opts p =
     (case enableColorScheme p of None \<Rightarrow> designSystemEnableColorScheme opts | Some b \<Rightarrow> b)"

text \<open>
  Line 64, \<^verbatim>\<open>const { colorSchemes = {}, components = {}, ...restThemeProp } = themeProp\<close>:
  a default applies to a property that is absent or \<^verbatim>\<open>undefined\<close>, and the rest keeps
  every other property.
\<close>

definition with_default :: "obj \<Rightarrow> string \<Rightarrow> jsval" where
  "with_default tp k = (if obj_get tp k = JUndefined then JObj [] else obj_get tp k)"

definition restThemeProp :: "obj \<Rightarrow> obj" where
  "restThemeProp tp = filter (\<lambda>kv. fst kv \<noteq> ''colorSchemes'' \<and> fst kv \<noteq> ''components'') tp"

text \<open>Lines 66 to 69.\<close>

definition defaultLightColorScheme :: "jsval \<Rightarrow> error + jsval" where
  "defaultLightColorScheme dcs = (if typeof dcs = ''string'' then Inr dcs else get_prop dcs ''light'')"

definition defaultDarkColorScheme :: "jsval \<Rightarrow> error + jsval" where
  "defaultDarkColorScheme dcs = (if typeof dcs = ''string'' then Inr dcs else get_prop dcs ''dark'')"

text \<open>Lines 85 to 95.\<close>

definition resolvedColorScheme :: "string option \<Rightarrow> string \<Rightarrow> jsval \<Rightarrow> jsval \<Rightarrow> jsval" where
  "resolvedColorScheme cs dm dflt_light dflt_dark =
     (if \<not> truthy_str cs then (if dm = ''dark'' then dflt_dark else dflt_light)
      else of_str cs)"

text \<open>Lines 141 to 149.\<close>

definition resolvedDefaultColorScheme :: "jsval \<Rightarrow> string \<Rightarrow> error + jsval" where
  "resolvedDefaultColorScheme dcs dm =
     (if typeof dcs = ''string'' then Inr dcs
      else if dm = ''dark'' then get_prop dcs ''dark''
      else get_prop dcs ''light'')"

text \<open>Line 153: the selector \<^verbatim>\<open>[attribute="key"]\<close>.\<close>

definition attribute_selector :: "string \<Rightarrow> string \<Rightarrow> string" where
  "attribute_selector attr key = ''['' @ attr @ ''='' @ [CHR 0x22] @ key @ [CHR 0x22] @ '']''"

text \<open>
  Lines 135 to 139. The two assignments change the palette object the theme refers to;
  the theme keeps referring to it, so the theme of the model gets the changed palette.
\<close>

definition assign_runtime :: "string option \<Rightarrow> jsval \<Rightarrow> obj \<Rightarrow> error + obj" where
  "assign_runtime m resolved th =
     (if truthy (obj_get th ''palette'') then
        (case set_prop (obj_get th ''palette'') ''mode'' (of_str m) of
           Inl e \<Rightarrow> Inl e
         | Inr pal \<Rightarrow>
             (case set_prop pal ''colorScheme'' resolved of
                Inl e \<Rightarrow> Inl e
              | Inr pal' \<Rightarrow> Inr (obj_set th ''palette'' pal')))
      else Inr th)"

text \<open>
  The options object \<^verbatim>\<open>{prefix, basePrefix: designSystemPrefix, shouldSkipGeneratingVar}\<close>
  is the same in the two calls of the parser, lines 102 and 124.
\<close>

definition parse :: "('f, 'g) deps \<Rightarrow> options \<Rightarrow> props \<Rightarrow> jsval \<Rightarrow> error + parsed" where
  "parse deps opts p v =
     cssVarsParser deps v (prop_prefix opts p) (designSystemPrefix opts)
       (shouldSkipGeneratingVar opts)"

text \<open>
  Lines 62 to 95: the variables of a render that the rest of it reads. \<open>entries\<close> is
  \<^verbatim>\<open>Object.entries(colorSchemes)\<close>, whose keys are \<^verbatim>\<open>allColorSchemes\<close>; \<open>hook\<close> is what
  \<^verbatim>\<open>useCurrentColorScheme\<close> returned and \<open>resolved\<close> is \<^verbatim>\<open>resolvedColorScheme\<close>.
\<close>

record 'f locals =
  colorSchemes :: jsval
  components :: jsval
  entries :: obj
  defaultLight :: jsval
  defaultDark :: jsval
  hook :: "'f current"
  resolved :: jsval

definition locals :: "('f, 'g) deps \<Rightarrow> options \<Rightarrow> props \<Rightarrow> error + 'f locals" where
  "locals deps opts p =
     (let tp = themeProp opts p;
          dcs = prop_defaultColorScheme opts p
      in case Object_entries (with_default tp ''colorSchemes'') of
           Inl e \<Rightarrow> Inl e
         | Inr kvs \<Rightarrow>
       (case defaultLightColorScheme dcs of
           Inl e \<Rightarrow> Inl e
         | Inr light \<Rightarrow>
       (case defaultDarkColorScheme dcs of
           Inl e \<Rightarrow> Inl e
         | Inr dark \<Rightarrow>
       (let cur = useCurrentColorScheme deps (map fst kvs) light dark
                    (prop_modeStorageKey deps p) (prop_defaultMode opts p)
        in Inr \<lparr>colorSchemes = with_default tp ''colorSchemes'',
                components = with_default tp ''components'',
                entries = kvs, defaultLight = light, defaultDark = dark, hook = cur,
                resolved = resolvedColorScheme (colorScheme cur) (prop_defaultMode opts p)
                             light dark\<rparr>))))"

text \<open>Lines 108 to 115, the theme before the loop.\<close>

definition initial_theme :: "('f, 'g) deps \<Rightarrow> options \<Rightarrow> props \<Rightarrow> 'f locals \<Rightarrow> parsed \<Rightarrow> obj" where
  "initial_theme deps opts p l root =
     obj_set (obj_set (obj_set (obj_set (obj_set (parsedTheme root)
       ''components'' (components l))
       ''colorSchemes'' (colorSchemes l))
       ''prefix'' (JStr (prop_prefix opts p)))
       ''vars'' (vars root))
       ''getCssVar'' (createGetCssVar deps (prop_prefix opts p))"

text \<open>
  Lines 119 to 155, the body of the loop over the registry, in its two halves: lines 129
  to 140 change the theme, lines 141 to 154 the style sheet. \<open>r\<close> is what the parser
  returned for the scheme.
\<close>

definition update_theme ::
  "('f, 'g) deps \<Rightarrow> 'f locals \<Rightarrow> string \<Rightarrow> parsed \<Rightarrow> obj \<Rightarrow> error + obj" where
  "update_theme deps l key r th =
     (let th' = obj_set th ''vars'' (deepmerge deps (obj_get th ''vars'') (vars r))
      in if JStr key = resolved l
         then assign_runtime (mode (hook l)) (resolved l) (spread th' (parsedTheme r))
         else Inr th')"

definition update_sheet ::
  "('f, 'g) deps \<Rightarrow> options \<Rightarrow> props \<Rightarrow> string \<Rightarrow> parsed \<Rightarrow> obj \<Rightarrow> error + obj" where
  "update_sheet deps opts p key r sheet =
     (case resolvedDefaultColorScheme (prop_defaultColorScheme opts p) (prop_defaultMode opts p) of
        Inl e \<Rightarrow> Inl e
      | Inr dflt \<Rightarrow>
          Inr (if JStr key = dflt
               then obj_set sheet '':root'' (css r)
               else obj_set sheet (attribute_selector (prop_attribute deps p) key) (css r)))"

definition scheme_step ::
  "('f, 'g) deps \<Rightarrow> options \<Rightarrow> props \<Rightarrow> 'f locals \<Rightarrow>
     string \<times> jsval \<Rightarrow> obj \<times> obj \<Rightarrow> error + obj \<times> obj" where
  "scheme_step deps opts p l entry acc =
     (case parse deps opts p (snd entry) of
        Inl e \<Rightarrow> Inl e
      | Inr r \<Rightarrow>
          (case update_theme deps l (fst entry) r (fst acc) of
             Inl e \<Rightarrow> Inl e
           | Inr th \<Rightarrow>
               (case update_sheet deps opts p (fst entry) r (snd acc) of
                  Inl e \<Rightarrow> Inl e
                | Inr sheet \<Rightarrow> Inr (th, sheet))))"

text \<open>\<^verbatim>\<open>forEach\<close> over a list with a body that may throw: the first throw ends the loop.\<close>

fun forEach :: "('a \<Rightarrow> 's \<Rightarrow> error + 's) \<Rightarrow> 'a list \<Rightarrow> 's \<Rightarrow> error + 's" where
  "forEach f [] s = Inr s"
| "forEach f (x # xs) s = (case f x s of Inl e \<Rightarrow> Inl e | Inr s' \<Rightarrow> forEach f xs s')"

text \<open>
  What one render hands to React: the value of the context provider, the styles of the
  two \<^verbatim>\<open>GlobalStyles\<close> elements and the theme of the \<^verbatim>\<open>ThemeProvider\<close>. \<open>merged\<close> is the
  variable \<^verbatim>\<open>theme\<close> after the loop, before \<^verbatim>\<open>resolveTheme\<close>; \<open>scope\<close> holds the
  variables of this render that its four effects read.
\<close>

record effect_scope =
  fx_colorScheme :: "string option"
  fx_attribute :: string
  fx_mode :: "string option"
  fx_systemMode :: "string option"
  fx_enableColorScheme :: bool
  fx_disableTransitionOnChange :: bool

record 'f rendered =
  provided :: "'f context_value"
  rootStyles :: obj
  styleSheet :: obj
  merged :: obj
  themeProvided :: obj
  scope :: effect_scope

definition CssVarsProvider :: "('f, 'g) deps \<Rightarrow> options \<Rightarrow> props \<Rightarrow> error + 'f rendered" where
  "CssVarsProvider deps opts p =
     (case locals deps opts p of
        Inl e \<Rightarrow> Inl e
      | Inr l \<Rightarrow>
     (case parse deps opts p (JObj (restThemeProp (themeProp opts p))) of
        Inl e \<Rightarrow> Inl e
      | Inr root \<Rightarrow>
     (case forEach (scheme_step deps opts p l) (entries l)
             (initial_theme deps opts p l root, []) of
        Inl e \<Rightarrow> Inl e
      | Inr acc \<Rightarrow>
          Inr \<lparr>provided =
                 \<lparr>mode = mode (hook l), setMode = setMode (hook l),
                  lightColorScheme = lightColorScheme (hook l),
                  darkColorScheme = darkColorScheme (hook l),
                  colorScheme = colorScheme (hook l),
                  setColorScheme = setColorScheme (hook l),
                  allColorSchemes = map fst (entries l)\<rparr>,
               rootStyles = [('':root'', css root)],
               styleSheet = snd acc,
               merged = fst acc,
               themeProvided =
                 (case resolveTheme opts of None \<Rightarrow> fst acc | Some f \<Rightarrow> f (fst acc)),
               scope =
                 \<lparr>fx_colorScheme = colorScheme (hook l),
                  fx_attribute = prop_attribute deps p,
                  fx_mode = mode (hook l),
                  fx_systemMode = systemMode (hook l),
                  fx_enableColorScheme = prop_enableColorScheme opts p,
                  fx_disableTransitionOnChange = prop_disableTransitionOnChange opts p\<rparr>\<rparr>)))"

text \<open>
  Line 266. The provider and the hook are closures over the options and the context;
  the console holds what the validation logged.
\<close>

definition createCssVarsProvider ::
  "('f, 'g) deps \<Rightarrow> options \<Rightarrow>
     console_entry list \<times>
     ((props \<Rightarrow> error + 'f rendered) \<times> ('f context_value list \<Rightarrow> error + 'f context_value) \<times> 'g)" where
  "createCssVarsProvider deps opts =
     (validate deps opts,
      (CssVarsProvider deps opts, useColorScheme, getInitColorSchemeScript deps))"

section \<open>The document and the effects\<close>

text \<open>
  The part of the browser the effects touch: the attributes and the inline style of
  \<^verbatim>\<open>document.documentElement\<close>, the children of \<^verbatim>\<open>document.head\<close>, the pending timeouts,
  and the calls of \<^verbatim>\<open>window.getComputedStyle(document.body)\<close>, each recorded with the
  children of the head at that moment. A node is known by a number; \<open>next_id\<close> is the
  next unused one, for nodes and timeouts alike. A style property that is not set reads
  as the empty string, and setting it to the empty string removes it. The only callback
  the module passes to \<^verbatim>\<open>setTimeout\<close> removes one node from the head, so a pending
  timeout is its id, its delay and that node.
\<close>

record element =
  el_id :: nat
  el_tag :: string
  el_children :: "string list"

record document =
  root_attributes :: "string \<Rightarrow> string option"
  root_style :: "string \<Rightarrow> string"
  head :: "element list"
  timeouts :: "(nat \<times> nat \<times> nat) list"
  style_reads :: "element list list"
  next_id :: nat

definition setAttribute :: "string \<Rightarrow> string \<Rightarrow> document \<Rightarrow> document" where
  "setAttribute name v d = d\<lparr>root_attributes := (root_attributes d)(name \<mapsto> v)\<rparr>"

definition getPropertyValue :: "string \<Rightarrow> document \<Rightarrow> string" where
  "getPropertyValue name d = root_style d name"

definition setProperty :: "string \<Rightarrow> string \<Rightarrow> document \<Rightarrow> document" where
  "setProperty name v d = d\<lparr>root_style := (root_style d)(name := v)\<rparr>"

definition createElement :: "string \<Rightarrow> document \<Rightarrow> element \<times> document" where
  "createElement tag d =
     (\<lparr>el_id = next_id d, el_tag = tag, el_children = []\<rparr>, d\<lparr>next_id := Suc (next_id d)\<rparr>)"

definition appendText :: "string \<Rightarrow> element \<Rightarrow> element" where
  "appendText txt e = e\<lparr>el_children := el_children e @ [txt]\<rparr>"

definition head_appendChild :: "element \<Rightarrow> document \<Rightarrow> document" where
  "head_appendChild e d = d\<lparr>head := filter (\<lambda>x. el_id x \<noteq> el_id e) (head d) @ [e]\<rparr>"

definition head_removeChild :: "nat \<Rightarrow> document \<Rightarrow> error + document" where
  "head_removeChild n d =
     (if n \<in> el_id ` set (head d)
      then Inr (d\<lparr>head := filter (\<lambda>x. el_id x \<noteq> n) (head d)\<rparr>)
      else Inl NotFoundError)"

definition getComputedStyle :: "document \<Rightarrow> document" where
  "getComputedStyle d = d\<lparr>style_reads := style_reads d @ [head d]\<rparr>"

definition setTimeout :: "nat \<Rightarrow> nat \<Rightarrow> document \<Rightarrow> nat \<times> document" where
  "setTimeout node delay d =
     (next_id d, d\<lparr>timeouts := timeouts d @ [(next_id d, delay, node)],
                    next_id := Suc (next_id d)\<rparr>)"

definition clearTimeout :: "nat option \<Rightarrow> document \<Rightarrow> document" where
  "clearTimeout t d =
     (case t of None \<Rightarrow> d
      | Some n \<Rightarrow> d\<lparr>timeouts := filter (\<lambda>x. fst x \<noteq> n) (timeouts d)\<rparr>)"

text \<open>
  A pending timeout fires: it leaves the list and its callback runs. A timeout that was
  cleared is not pending and does nothing.
\<close>

definition fire :: "nat \<Rightarrow> document \<Rightarrow> error + document" where
  "fire t d =
     (case find (\<lambda>x. fst x = t) (timeouts d) of
        None \<Rightarrow> Inr d
      | Some x \<Rightarrow>
          head_removeChild (snd (snd x)) (d\<lparr>timeouts := filter (\<lambda>y. fst y \<noteq> t) (timeouts d)\<rparr>))"

subsection \<open>The four effects\<close>

text \<open>Lines 157 to 162.\<close>

definition attribute_effect :: "string option \<Rightarrow> string \<Rightarrow> document \<Rightarrow> document" where
  "attribute_effect cs attr d =
     (case cs of None \<Rightarrow> d | Some s \<Rightarrow> if s \<noteq> [] then setAttribute attr s d else d)"

text \<open>
  Lines 164 to 179. The result holds the cleanup, which is either \<^verbatim>\<open>undefined\<close> or the
  function that writes \<^verbatim>\<open>priorColorScheme\<close> back, given here by that value.
\<close>

definition color_scheme_effect ::
  "string option \<Rightarrow> string option \<Rightarrow> bool \<Rightarrow> document \<Rightarrow> document \<times> string option" where
  "color_scheme_effect m sm enable d =
     (if \<not> truthy_str m \<or> \<not> enable then (d, None)
      else
        (let priorColorScheme = getPropertyValue ''color-scheme'' d
         in (if m = Some ''system''
             then setProperty ''color-scheme'' (to_string (of_str sm)) d
             else setProperty ''color-scheme'' (to_string (of_str m)) d,
             Some priorColorScheme)))"

definition color_scheme_cleanup :: "string option \<Rightarrow> document \<Rightarrow> document" where
  "color_scheme_cleanup c d =
     (case c of None \<Rightarrow> d | Some priorColorScheme \<Rightarrow> setProperty ''color-scheme'' priorColorScheme d)"

text \<open>
  Lines 181 to 199. The result holds the variable \<^verbatim>\<open>timer\<close> the cleanup passes to
  \<^verbatim>\<open>clearTimeout\<close>; the second argument is \<^verbatim>\<open>hasMounted.current\<close>.
\<close>

definition transition_effect :: "bool \<Rightarrow> bool \<Rightarrow> document \<Rightarrow> document \<times> nat option" where
  "transition_effect disable mounted d =
     (if disable \<and> mounted then
        (let created = createElement ''style'' d;
             css_el = appendText DISABLE_CSS_TRANSITION (fst created);
             d1 = head_appendChild css_el (snd created);
             d2 = getComputedStyle d1;
             timer = setTimeout (el_id css_el) 1 d2
         in (snd timer, Some (fst timer)))
      else (d, None))"

definition transition_cleanup :: "nat option \<Rightarrow> document \<Rightarrow> document" where
  "transition_cleanup timer d = clearTimeout timer d"

subsection \<open>Mount, update and unmount\<close>

text \<open>
  What React keeps for one mounted \<^verbatim>\<open>CssVarsProvider\<close>: the ref \<^verbatim>\<open>hasMounted\<close>, the
  variables of the last committed render, against which the dependency arrays of the
  next one are compared, and the cleanups of the color-scheme and the transition effect.

  React runs the effects of a component in the order of their declaration, layout
  effects (\<^verbatim>\<open>useEnhancedEffect\<close> is \<^verbatim>\<open>useLayoutEffect\<close> in a browser) before passive ones.
  At the first commit every effect runs. At a later commit an effect runs when one of
  its dependencies differs from the last commit, after its previous cleanup; an
  effect with the dependencies \<^verbatim>\<open>[]\<close> runs once. At unmount the cleanups run.
\<close>

record fiber =
  hasMounted :: bool
  committed :: effect_scope
  restore :: "string option"
  timer_var :: "nat option"

definition mount :: "effect_scope \<Rightarrow> document \<Rightarrow> fiber \<times> document" where
  "mount sc d =
     (let ref = False;
          e2 = color_scheme_effect (fx_mode sc) (fx_systemMode sc) (fx_enableColorScheme sc) d;
          d1 = attribute_effect (fx_colorScheme sc) (fx_attribute sc) (fst e2);
          e3 = transition_effect (fx_disableTransitionOnChange sc) ref d1;
          ref' = True
      in (\<lparr>hasMounted = ref', committed = sc, restore = snd e2, timer_var = snd e3\<rparr>, fst e3))"

definition update :: "fiber \<Rightarrow> effect_scope \<Rightarrow> document \<Rightarrow> fiber \<times> document" where
  "update fb sc d =
     (let old = committed fb;
          run1 = (fx_colorScheme sc \<noteq> fx_colorScheme old \<or> fx_attribute sc \<noteq> fx_attribute old);
          run2 = (fx_mode sc \<noteq> fx_mode old \<or> fx_systemMode sc \<noteq> fx_systemMode old \<or>
                  fx_enableColorScheme sc \<noteq> fx_enableColorScheme old);
          run3 = (fx_colorScheme sc \<noteq> fx_colorScheme old \<or>
                  fx_disableTransitionOnChange sc \<noteq> fx_disableTransitionOnChange old);
          e2 = (if run2
                then color_scheme_effect (fx_mode sc) (fx_systemMode sc) (fx_enableColorScheme sc)
                       (color_scheme_cleanup (restore fb) d)
                else (d, restore fb));
          d1 = (if run3 then transition_cleanup (timer_var fb) (fst e2) else fst e2);
          d2 = (if run1 then attribute_effect (fx_colorScheme sc) (fx_attribute sc) d1 else d1);
          e3 = (if run3
                then transition_effect (fx_disableTransitionOnChange sc) (hasMounted fb) d2
                else (d2, timer_var fb))
      in (\<lparr>hasMounted = hasMounted fb, committed = sc, restore = snd e2, timer_var = snd e3\<rparr>,
          fst e3))"

definition unmount :: "fiber \<Rightarrow> document \<Rightarrow> fiber \<times> document" where
  "unmount fb d =
     (fb\<lparr>hasMounted := False\<rparr>,
      transition_cleanup (timer_var fb) (color_scheme_cleanup (restore fb) d))"

section \<open>Concrete imports\<close>

text \<open>
  The helpers of the parser below: the name of the variable of a leaf joins the prefix
  and the segments of its path with \<^verbatim>\<open>-\<close>; a leaf scalar is a string or a number; the
  skip predicate vetoes generation for a path.
\<close>

fun join :: "string \<Rightarrow> string list \<Rightarrow> string" where
  "join sep [] = []"
| "join sep [x] = x"
| "join sep (x # y # ys) = x @ sep @ join sep (y # ys)"

fun is_scalar :: "jsval \<Rightarrow> bool" where
  "is_scalar (JStr s) = True"
| "is_scalar (JNum n) = True"
| "is_scalar v = False"

definition var_name :: "string \<Rightarrow> string list \<Rightarrow> string" where
  "var_name pre path = join ''-'' ((if pre = [] then [] else [pre]) @ path)"

definition generates :: "skip option \<Rightarrow> string list \<Rightarrow> jsval \<Rightarrow> bool" where
  "generates sk path v = (is_scalar v \<and> (case sk of None \<Rightarrow> True | Some f \<Rightarrow> \<not> f path v))"

fun leaves :: "string list \<Rightarrow> jsval \<Rightarrow> (string list \<times> jsval) list" where
  "leaves path (JObj kvs) = concat (map (\<lambda>kv. leaves (path @ [fst kv]) (snd kv)) kvs)"
| "leaves path v = [(path, v)]"

fun mirror :: "(string list \<Rightarrow> jsval \<Rightarrow> jsval) \<Rightarrow> string list \<Rightarrow> jsval \<Rightarrow> jsval" where
  "mirror f path (JObj kvs) =
     JObj (map (\<lambda>kv. (fst kv, mirror f (path @ [fst kv]) (snd kv))) kvs)"
| "mirror f path v = f path v"

definition var_reference :: "string \<Rightarrow> string \<Rightarrow> string list \<Rightarrow> jsval \<Rightarrow> jsval" where
  "var_reference pre base path v =
     JStr (if base = pre then ''var(--'' @ var_name pre path @ '')''
           else ''var(--'' @ var_name pre path @ '', '' @ to_string v @ '')'')"

text \<open>
  Modelled from the spec: the Variable Parser (\<^verbatim>\<open>cssVarsParser\<close>, not among the sources),
  section 4.1. The theme is a nested mapping. A leaf whose generation is vetoed keeps its
  value and has no variable. \<open>vars\<close> is the flat mapping from name to value, \<open>css\<close> the
  same data as declarations, \<open>parsedTheme\<close> the shape of the input with each generated
  leaf replaced by \<^verbatim>\<open>var(--name)\<close>, or by \<^verbatim>\<open>var(--name, value)\<close> when the base prefix
  differs from the prefix. An input that is no mapping is outside the contract; the
  parser then throws.
\<close>

definition spec_cssVarsParser ::
  "jsval \<Rightarrow> string \<Rightarrow> string \<Rightarrow> skip option \<Rightarrow> error + parsed" where
  "spec_cssVarsParser th pre base sk =
     (case th of
        JObj kvs \<Rightarrow>
          (let generated = filter (\<lambda>l. generates sk (fst l) (snd l)) (leaves [] th)
           in Inr \<lparr>css = JStr (join [CHR 0x0A]
                            (map (\<lambda>l. ''--'' @ var_name pre (fst l) @ '':'' @ to_string (snd l) @ '';'')
                               generated)),
                   vars = JObj (spread []
                            (map (\<lambda>l. (var_name pre (fst l), JStr (to_string (snd l)))) generated)),
                   parsedTheme =
                     map (\<lambda>kv. (fst kv,
                            mirror (\<lambda>path v. if generates sk path v
                                              then var_reference pre base path v else v)
                              [fst kv] (snd kv))) kvs\<rparr>)
      | _ \<Rightarrow> Inl TypeError)"

text \<open>
  Modelled from the spec: \<^verbatim>\<open>deepmerge\<close> (from \<^verbatim>\<open>@mui/utils\<close>, not among the sources), of
  which the spec says only that the variable maps of the schemes are merged into one.
  The properties of the second object are set on a copy of the first; where both hold
  an object under a key, the two are merged in turn.
\<close>

fun spec_deepmerge :: "jsval \<Rightarrow> jsval \<Rightarrow> jsval" where
  "spec_deepmerge (JObj t) (JObj s) =
     JObj (fold (\<lambda>kv out. obj_set out (fst kv)
                   (case obj_get t (fst kv) of
                      JObj a \<Rightarrow> (case snd kv of JObj b \<Rightarrow> spec_deepmerge (JObj a) (snd kv)
                                 | _ \<Rightarrow> snd kv)
                    | _ \<Rightarrow> snd kv)) s t)"
| "spec_deepmerge t s = t"

text \<open>
  Modelled from the spec: the Color-Scheme State (\<^verbatim>\<open>useCurrentColorScheme\<close>, not among
  the sources), section 4.2, on the server, where nothing is resolved yet.
\<close>

definition server_state ::
  "string list \<Rightarrow> jsval \<Rightarrow> jsval \<Rightarrow> string \<Rightarrow> string \<Rightarrow> unit current" where
  "server_state supported dflt_light dflt_dark storage_key dflt_mode =
     \<lparr>mode = None, setMode = (), lightColorScheme = None, darkColorScheme = None,
      colorScheme = None, setColorScheme = (), systemMode = None\<rparr>"

fun str_of :: "jsval \<Rightarrow> string option" where
  "str_of (JStr s) = Some s"
| "str_of v = None"

text \<open>
  Modelled from the spec: the Color-Scheme State, section 4.2, at its first activation in
  a browser with an empty storage. The mode is the default mode, the light and dark
  schemes are the defaults, and the color scheme follows the mode; the preference of the
  system is taken to be light.
\<close>

definition browser_state ::
  "string list \<Rightarrow> jsval \<Rightarrow> jsval \<Rightarrow> string \<Rightarrow> string \<Rightarrow> unit current" where
  "browser_state supported dflt_light dflt_dark storage_key dflt_mode =
     \<lparr>mode = Some dflt_mode, setMode = (),
      lightColorScheme = str_of dflt_light, darkColorScheme = str_of dflt_dark,
      colorScheme =
        (if dflt_mode = ''dark'' then str_of dflt_dark
         else str_of dflt_light),
      setColorScheme = (),
      systemMode = (if dflt_mode = ''system'' then Some ''light'' else None)\<rparr>"

text \<open>
  The members that every object inherits from \<^verbatim>\<open>Object.prototype\<close> (ECMAScript with its
  annex B): functions, known here by their names, and the accessor \<^verbatim>\<open>__proto__\<close>, which gives
  the prototype itself, an object without enumerable properties. The members that
  functions and primitive values inherit from their own prototypes besides are not
  listed; the examples index ordinary objects only.
\<close>

definition Object_prototype :: "string list" where
  "Object_prototype =
     [''constructor'', ''__defineGetter__'', ''__defineSetter__'', ''hasOwnProperty'',
      ''__lookupGetter__'', ''__lookupSetter__'', ''isPrototypeOf'', ''propertyIsEnumerable'',
      ''toString'', ''valueOf'', ''__proto__'', ''toLocaleString'']"

definition ordinary_inherited :: "jsval \<Rightarrow> string \<Rightarrow> jsval" where
  "ordinary_inherited v k =
     (if k = ''__proto__'' then JObj []
      else if k \<in> set Object_prototype then JFun k []
      else JUndefined)"

text \<open>
  The imports with these in place; \<^verbatim>\<open>createGetCssVar\<close> gives a function known by its
  prefix, and the two constants have the values of an example.
\<close>

definition browser_deps :: "(unit, unit) deps" where
  "browser_deps =
     \<lparr>cssVarsParser = spec_cssVarsParser, deepmerge = spec_deepmerge,
      useCurrentColorScheme = browser_state,
      createGetCssVar = (\<lambda>pre. JFun (''getCssVar:'' @ pre) []),
      getInitColorSchemeScript = (),
      DEFAULT_ATTRIBUTE = ''data-color-scheme'',
      DEFAULT_MODE_STORAGE_KEY = ''mode'',
      inherited = ordinary_inherited\<rparr>"

definition server_deps :: "(unit, unit) deps" where
  "server_deps = browser_deps\<lparr>useCurrentColorScheme := server_state\<rparr>"

section \<open>Example inputs\<close>

definition no_props :: props where
  "no_props =
     \<lparr>theme = None, defaultMode = None, defaultColorScheme = JUndefined,
      disableTransitionOnChange = None, enableColorScheme = None, prefix = None,
      modeStorageKey = None, attribute = None\<rparr>"

definition options_of :: "obj \<Rightarrow> jsval \<Rightarrow> options" where
  "options_of th scheme =
     \<lparr>theme = Some th, defaultMode = None, defaultColorScheme = scheme,
      disableTransitionOnChange = None, enableColorScheme = None, prefix = None,
      shouldSkipGeneratingVar = None, resolveTheme = None\<rparr>"

definition empty_document :: document where
  "empty_document =
     \<lparr>root_attributes = Map.empty, root_style = (\<lambda>name. []), head = [], timeouts = [],
      style_reads = [], next_id = 0\<rparr>"

definition two_schemes :: obj where
  "two_schemes =
     [(''spacing'', JNum ''8''),
      (''colorSchemes'', JObj
         [(''light'', JObj [(''palette'', JObj [(''primary'', JStr ''blue'')])]),
          (''dark'', JObj [(''palette'', JObj [(''primary'', JStr ''navy'')])])])]"

definition day_scope :: effect_scope where
  "day_scope =
     \<lparr>fx_colorScheme = Some ''light'', fx_attribute = ''data-color-scheme'',
      fx_mode = Some ''light'', fx_systemMode = None, fx_enableColorScheme = True,
      fx_disableTransitionOnChange = True\<rparr>"

definition night_scope :: effect_scope where
  "night_scope = day_scope\<lparr>fx_colorScheme := Some ''dark'', fx_mode := Some ''dark''\<rparr>"

text \<open>
  Two runs of a mounted provider with \<^verbatim>\<open>disableTransitionOnChange\<close> on, no timeout firing
  in between: the color scheme changes and changes back; the color scheme changes and
  the provider unmounts.
\<close>

definition twice_changed :: "fiber \<times> document" where
  "twice_changed =
     (let m = mount day_scope empty_document;
          u = update (fst m) night_scope (snd m)
      in update (fst u) day_scope (snd u))"

definition changed_then_unmounted :: "fiber \<times> document" where
  "changed_then_unmounted =
     (let m = mount day_scope empty_document;
          u = update (fst m) night_scope (snd m)
      in unmount (fst u) (snd u))"

text \<open>A mode that is none of \<^verbatim>\<open>light\<close>, \<^verbatim>\<open>dark\<close> and \<^verbatim>\<open>system\<close>.\<close>

definition auto_scope :: effect_scope where
  "auto_scope = day_scope\<lparr>fx_mode := Some ''auto''\<rparr>"

text \<open>A default color scheme in its object form.\<close>

definition day_and_night :: jsval where
  "day_and_night = JObj [(''light'', JStr ''light''), (''dark'', JStr ''dark'')]"

text \<open>An object form without the \<^verbatim>\<open>dark\<close> member.\<close>

definition day_only :: jsval where
  "day_only = JObj [(''light'', JStr ''light'')]"

section \<open>Notions the claims are stated with\<close>

text \<open>
  A document in which the numbers of the nodes in the head and of the pending timeouts
  are below the next unused one, as they are in every document the operations above
  build from the empty one.
\<close>

definition well_formed :: "document \<Rightarrow> bool" where
  "well_formed d =
     (list_all (\<lambda>e. el_id e < next_id d) (head d) \<and>
      list_all (\<lambda>t. fst t < next_id d) (timeouts d))"

text \<open>The \<^verbatim>\<open>style\<close> element of lines 185 and 186, as node \<open>n\<close>.\<close>

definition transition_style :: "nat \<Rightarrow> element" where
  "transition_style n = \<lparr>el_id = n, el_tag = ''style'', el_children = [DISABLE_CSS_TRANSITION]\<rparr>"

text \<open>The selector under which lines 150 to 154 store the block of the scheme \<open>key\<close>.\<close>

definition selector_of :: "jsval \<Rightarrow> string \<Rightarrow> string \<Rightarrow> string" where
  "selector_of dflt attr key = (if JStr key = dflt then '':root'' else attribute_selector attr key)"



text \<open>
  The top-level keys of the parsed theme of the registry entry that the resolved color
  scheme names (of each such entry, should the list repeat a key).
\<close>

definition active_keys ::
  "('f, 'g) deps \<Rightarrow> options \<Rightarrow> props \<Rightarrow> jsval \<Rightarrow> obj \<Rightarrow> string list" where
  "active_keys deps opts p name registry =
     concat (map (\<lambda>kv. if JStr (fst kv) = name
                        then (case parse deps opts p (snd kv) of
                                Inl e \<Rightarrow> [] | Inr r \<Rightarrow> map fst (parsedTheme r))
                        else []) registry)"

text \<open>
  The props with the attribute of the spec's example, and a theme whose light scheme has
  a \<^verbatim>\<open>components\<close> entry.
\<close>

definition attr_props :: props where
  "attr_props = no_props\<lparr>attribute := Some ''data-attr''\<rparr>"


text \<open>
  A value on which lines 137 and 138 can set a property; a theme whose palette is falsy,
  so that the two lines are not reached, or such a value; and the values the parser is
  given for which a render goes on: the parser returns, and what the parsed theme holds
  under \<^verbatim>\<open>palette\<close> is falsy or such a value.
\<close>

fun assignable :: "jsval \<Rightarrow> bool" where
  "assignable (JObj kvs) = True"
| "assignable (JFun src kvs) = True"
| "assignable v = False"

definition palette_ok :: "obj \<Rightarrow> bool" where
  "palette_ok th = (\<not> truthy (obj_get th ''palette'') \<or> assignable (obj_get th ''palette''))"

definition parses_well :: "('f, 'g) deps \<Rightarrow> options \<Rightarrow> props \<Rightarrow> jsval \<Rightarrow> bool" where
  "parses_well deps opts p v =
     (case parse deps opts p v of
        Inl e \<Rightarrow> False
      | Inr r \<Rightarrow>
          list_all (\<lambda>kv. fst kv = ''palette'' \<longrightarrow> \<not> truthy (snd kv) \<or> assignable (snd kv))
            (parsedTheme r))"

section \<open>Properties of objects\<close>

lemma map_of_obj_set: "map_of (obj_set kvs k v) = (map_of kvs)(k \<mapsto> v)"
  by (induction kvs) (auto simp: fun_eq_iff)

lemma obj_get_obj_set: "obj_get (obj_set kvs k v) k' = (if k' = k then v else obj_get kvs k')"
  by (simp add: obj_get_def map_of_obj_set)

lemma keys_obj_set: "fst ` set (obj_set kvs k v) = insert k (fst ` set kvs)"
  by (induction kvs) auto

lemma map_of_spread_other:
  "k \<notin> fst ` set s \<Longrightarrow> map_of (spread t s) k = map_of t k"
  by (induction s arbitrary: t) (auto simp: map_of_obj_set)

lemma obj_get_spread_other:
  "k \<notin> fst ` set s \<Longrightarrow> obj_get (spread t s) k = obj_get t k"
  by (simp add: obj_get_def map_of_spread_other)


section \<open>The hook outside a provider\<close>

text \<open>
  Claim C1. The \<^verbatim>\<open>useColorScheme\<close> that \<^verbatim>\<open>createCssVarsProvider\<close> returns, called where no
  \<^verbatim>\<open>CssVarsProvider\<close> encloses the caller, throws the \<^verbatim>\<open>MuiError\<close> and returns no value,
  whatever the options were.
\<close>

theorem useColorScheme_outside_provider:
  fixes deps :: "('f, 'g) deps"
  shows "fst (snd (snd (createCssVarsProvider deps opts))) [] =
           Inl (MuiError ''MUI: `useColorScheme` must be called under <CssVarsProvider />'')
         \<and> (\<forall>v. fst (snd (snd (createCssVarsProvider deps opts))) [] \<noteq> Inr v)"
  by (simp add: createCssVarsProvider_def useColorScheme_def useContext_def)

theorem useColorScheme_outside_provider_witness:
  "fst (snd (snd (createCssVarsProvider browser_deps (options_of [] (JStr ''light''))))) [] =
     Inl (MuiError ''MUI: `useColorScheme` must be called under <CssVarsProvider />'')"
  using useColorScheme_outside_provider [of browser_deps "options_of [] (JStr ''light'')"]
  by simp

text \<open>Under a provider the hook returns the value of the nearest one.\<close>

lemma useColorScheme_inside_provider: "useColorScheme (v # vs) = Inr v"
  by (simp add: useColorScheme_def useContext_def)

section \<open>The effects\<close>

text \<open>
  Claim C6, as amended. When \<^verbatim>\<open>colorScheme\<close> is a non-empty string, the attribute effect
  sets the configured attribute of the document root to it and changes nothing else in
  the document. When it is \<^verbatim>\<open>undefined\<close> or the empty string, the effect changes nothing.
\<close>

theorem attribute_effect_frame:
  assumes "s \<noteq> []"
  shows "attribute_effect (Some s) attr d = d\<lparr>root_attributes := (root_attributes d)(attr \<mapsto> s)\<rparr>
         \<and> attribute_effect None attr d = d
         \<and> attribute_effect (Some []) attr d = d"
  using assms by (simp add: attribute_effect_def setAttribute_def)

text \<open>
  Claim C6 as stated fails: the empty string is a scheme name that is not \<^verbatim>\<open>undefined\<close>,
  and the guard of line 158 tests truthiness, so the attribute is not written.
\<close>

theorem attribute_effect_empty_name:
  "root_attributes (attribute_effect (Some []) ''data-color-scheme'' empty_document)
     ''data-color-scheme'' \<noteq> Some []"
  by (simp add: attribute_effect_def empty_document_def)

theorem attribute_effect_frame_witness:
  "''dark'' \<noteq> [] \<and>
   root_attributes (attribute_effect (Some ''dark'') ''data-color-scheme'' empty_document)
     ''data-color-scheme'' = Some ''dark''"
  using attribute_effect_frame [of "''dark''" "''data-color-scheme''" empty_document]
  by simp

subsection \<open>The color-scheme property\<close>

lemma color_scheme_effect_off:
  "color_scheme_effect None sm en d = (d, None)" "color_scheme_effect m sm False d = (d, None)"
  by (simp_all add: color_scheme_effect_def)

lemma color_scheme_effect_on:
  "s \<noteq> [] \<Longrightarrow> color_scheme_effect (Some s) sm True d =
     (setProperty ''color-scheme'' (if s = ''system'' then to_string (of_str sm) else s) d,
      Some (root_style d ''color-scheme''))"
  by (simp add: color_scheme_effect_def getPropertyValue_def Let_def)

lemma cleanup_after_effect:
  "root_style (color_scheme_cleanup (snd (color_scheme_effect m sm en d))
      (fst (color_scheme_effect m sm en d))) ''color-scheme'' = root_style d ''color-scheme''"
  by (simp add: color_scheme_effect_def color_scheme_cleanup_def setProperty_def
      getPropertyValue_def Let_def)

lemma root_style_attribute_effect [simp]:
  "root_style (attribute_effect cs a d) = root_style d"
  by (simp add: attribute_effect_def setAttribute_def split: option.splits)

lemma root_style_transition_effect [simp]:
  "root_style (fst (transition_effect b h d)) = root_style d"
  by (simp add: transition_effect_def Let_def createElement_def head_appendChild_def
      getComputedStyle_def setTimeout_def)

lemma root_style_transition_cleanup [simp]:
  "root_style (transition_cleanup t d) = root_style d"
  by (simp add: transition_cleanup_def clearTimeout_def split: option.splits)

lemma mount_root_style:
  assumes "fx_mode sc = Some m" and "m \<noteq> []" and "fx_enableColorScheme sc"
  shows "root_style (snd (mount sc d)) =
           (root_style d)(''color-scheme'' :=
              (if m = ''system'' then to_string (of_str (fx_systemMode sc)) else m))"
    and "restore (fst (mount sc d)) = Some (root_style d ''color-scheme'')"
    and "committed (fst (mount sc d)) = sc"
  using assms
  by (simp_all add: mount_def Let_def color_scheme_effect_on setProperty_def)

lemma mount_root_style_off:
  assumes "fx_mode sc = None \<or> fx_mode sc = Some [] \<or> \<not> fx_enableColorScheme sc"
  shows "root_style (snd (mount sc d)) = root_style d"
    and "restore (fst (mount sc d)) = None"
  using assms
  by (auto simp add: mount_def Let_def color_scheme_effect_def)

lemma update_color_scheme:
  "root_style (snd (update fb sc d)) =
     root_style (fst (if fx_mode sc \<noteq> fx_mode (committed fb) \<or>
                         fx_systemMode sc \<noteq> fx_systemMode (committed fb) \<or>
                         fx_enableColorScheme sc \<noteq> fx_enableColorScheme (committed fb)
                      then color_scheme_effect (fx_mode sc) (fx_systemMode sc)
                             (fx_enableColorScheme sc) (color_scheme_cleanup (restore fb) d)
                      else (d, restore fb)))"
  "restore (fst (update fb sc d)) =
     snd (if fx_mode sc \<noteq> fx_mode (committed fb) \<or>
                         fx_systemMode sc \<noteq> fx_systemMode (committed fb) \<or>
                         fx_enableColorScheme sc \<noteq> fx_enableColorScheme (committed fb)
                      then color_scheme_effect (fx_mode sc) (fx_systemMode sc)
                             (fx_enableColorScheme sc) (color_scheme_cleanup (restore fb) d)
                      else (d, restore fb))"
  by (simp_all add: update_def Let_def)

lemma update_root_style:
  assumes "restore fb = Some prior"
    and "fx_mode sc = Some m" and "m \<noteq> []" and "fx_enableColorScheme sc"
    and "fx_mode (committed fb) \<noteq> fx_mode sc \<or> fx_systemMode (committed fb) \<noteq> fx_systemMode sc
         \<or> fx_enableColorScheme (committed fb) \<noteq> fx_enableColorScheme sc"
  shows "root_style (snd (update fb sc d)) =
           (root_style d)(''color-scheme'' :=
              (if m = ''system'' then to_string (of_str (fx_systemMode sc)) else m))"
    and "restore (fst (update fb sc d)) = Some prior"
proof -
  have run: "fx_mode sc \<noteq> fx_mode (committed fb) \<or> fx_systemMode sc \<noteq> fx_systemMode (committed fb)
         \<or> fx_enableColorScheme sc \<noteq> fx_enableColorScheme (committed fb)"
    using assms(5) by auto
  have eff: "color_scheme_effect (fx_mode sc) (fx_systemMode sc) (fx_enableColorScheme sc) d' =
     (setProperty ''color-scheme''
        (if m = ''system'' then to_string (of_str (fx_systemMode sc)) else m) d',
      Some (root_style d' ''color-scheme''))" for d'
    using color_scheme_effect_on [OF assms(3), of "fx_systemMode sc" d'] assms(2,4) by simp
  have cl: "color_scheme_cleanup (restore fb) d = setProperty ''color-scheme'' prior d"
    by (simp add: assms(1) color_scheme_cleanup_def)
  show "root_style (snd (update fb sc d)) =
           (root_style d)(''color-scheme'' :=
              (if m = ''system'' then to_string (of_str (fx_systemMode sc)) else m))"
    unfolding update_color_scheme(1) if_P [OF run] eff cl
    by (simp add: setProperty_def)
  show "restore (fst (update fb sc d)) = Some prior"
    unfolding update_color_scheme(2) if_P [OF run] eff cl
    by (simp add: setProperty_def)
qed

lemma update_root_style_off:
  assumes "restore fb = Some prior"
    and "fx_mode sc = None \<or> fx_mode sc = Some [] \<or> \<not> fx_enableColorScheme sc"
    and "fx_mode (committed fb) \<noteq> fx_mode sc \<or> fx_systemMode (committed fb) \<noteq> fx_systemMode sc
         \<or> fx_enableColorScheme (committed fb) \<noteq> fx_enableColorScheme sc"
  shows "root_style (snd (update fb sc d)) = (root_style d)(''color-scheme'' := prior)"
proof -
  have run: "fx_mode sc \<noteq> fx_mode (committed fb) \<or> fx_systemMode sc \<noteq> fx_systemMode (committed fb)
         \<or> fx_enableColorScheme sc \<noteq> fx_enableColorScheme (committed fb)"
    using assms(3) by auto
  have off: "color_scheme_effect (fx_mode sc) (fx_systemMode sc) (fx_enableColorScheme sc) d' = (d', None)"
    for d'
    using assms(2) by (auto simp add: color_scheme_effect_def)
  have cl: "color_scheme_cleanup (restore fb) d = setProperty ''color-scheme'' prior d"
    by (simp add: assms(1) color_scheme_cleanup_def)
  show ?thesis
    unfolding update_color_scheme(1) if_P [OF run] off cl
    by (simp add: setProperty_def)
qed

lemma update_root_style_same:
  assumes "fx_mode (committed fb) = fx_mode sc" and "fx_systemMode (committed fb) = fx_systemMode sc"
    and "fx_enableColorScheme (committed fb) = fx_enableColorScheme sc"
  shows "root_style (snd (update fb sc d)) = root_style d"
    and "restore (fst (update fb sc d)) = restore fb"
  unfolding update_color_scheme using assms by simp_all

lemma unmount_root_style:
  "restore fb = Some prior \<Longrightarrow>
   root_style (snd (unmount fb d)) = (root_style d)(''color-scheme'' := prior)"
  by (simp add: unmount_def color_scheme_cleanup_def setProperty_def)


text \<open>
  Claim C5, as amended. With \<^verbatim>\<open>enableColorScheme\<close> on and a mode that is a non-empty
  string, the commit of the mount sets the \<^verbatim>\<open>color-scheme\<close> property of the document root,
  and no other property, to the mode, or to the system mode when the mode is \<^verbatim>\<open>system\<close>.
  The value is \<^verbatim>\<open>light\<close> or \<^verbatim>\<open>dark\<close> when the mode is \<^verbatim>\<open>light\<close> or \<^verbatim>\<open>dark\<close>, or \<^verbatim>\<open>system\<close> with
  a system mode of \<^verbatim>\<open>light\<close> or \<^verbatim>\<open>dark\<close>; the effect does not check it. A later commit with
  such a mode leaves the property at the value of that commit, and a commit with
  \<^verbatim>\<open>enableColorScheme\<close> off leaves the style of the root as it was before the mount: the
  cleanup that runs when a dependency has changed has written the prior value back. So
  does the unmount, directly after the mount or after the later commit.
\<close>

theorem color_scheme_property:
  assumes "fx_mode sc = Some m" and "m \<noteq> []" and "fx_enableColorScheme sc"
    and "fx_mode sc' = Some m'" and "m' \<noteq> []" and "fx_enableColorScheme sc'"
    and "\<not> fx_enableColorScheme sc''"
    and "v = (if m = ''system'' then to_string (of_str (fx_systemMode sc)) else m)"
    and "v' = (if m' = ''system'' then to_string (of_str (fx_systemMode sc')) else m')"
    and "mounted = mount sc d"
    and "updated = update (fst mounted) sc' (snd mounted)"
  shows "root_style (snd mounted) = (root_style d)(''color-scheme'' := v)
         \<and> (m = ''light'' \<or> m = ''dark'' \<or>
             m = ''system'' \<and> (fx_systemMode sc = Some ''light'' \<or> fx_systemMode sc = Some ''dark'')
            \<longrightarrow> v = ''light'' \<or> v = ''dark'')
         \<and> root_style (snd (unmount (fst mounted) (snd mounted))) = root_style d
         \<and> root_style (snd updated) = (root_style d)(''color-scheme'' := v')
         \<and> root_style (snd (unmount (fst updated) (snd updated))) = root_style d
         \<and> root_style (snd (update (fst mounted) sc'' (snd mounted))) = root_style d"
proof -
  note mt = mount_root_style [OF assms(1,2,3), of d, folded assms(8) assms(10)]
  have 1: "root_style (snd mounted) = (root_style d)(''color-scheme'' := v)"
    by (rule mt(1))
  have 2: "v = ''light'' \<or> v = ''dark''"
    if "m = ''light'' \<or> m = ''dark'' \<or>
        m = ''system'' \<and> (fx_systemMode sc = Some ''light'' \<or> fx_systemMode sc = Some ''dark'')"
    using that by (auto simp add: assms(8))
  have 3: "root_style (snd (unmount (fst mounted) (snd mounted))) = root_style d"
    by (simp add: unmount_root_style [OF mt(2)] 1)
  have u: "root_style (snd updated) = (root_style d)(''color-scheme'' := v')
           \<and> restore (fst updated) = Some (root_style d ''color-scheme'')"
  proof (cases "fx_mode sc' = fx_mode sc \<and> fx_systemMode sc' = fx_systemMode sc")
    case True
    with assms(1,4) have "m' = m" by simp
    with True have vv: "v' = v" by (simp add: assms(8,9))
    from True assms(3,6) have same: "fx_mode (committed (fst mounted)) = fx_mode sc'"
      "fx_systemMode (committed (fst mounted)) = fx_systemMode sc'"
      "fx_enableColorScheme (committed (fst mounted)) = fx_enableColorScheme sc'"
      by (simp_all add: mt(3))
    from update_root_style_same [OF same, of "snd mounted"] show ?thesis
      by (simp add: assms(11) 1 vv mt(2))
  next
    case False
    then have ch: "fx_mode (committed (fst mounted)) \<noteq> fx_mode sc' \<or>
         fx_systemMode (committed (fst mounted)) \<noteq> fx_systemMode sc' \<or>
         fx_enableColorScheme (committed (fst mounted)) \<noteq> fx_enableColorScheme sc'"
      by (auto simp add: mt(3))
    from update_root_style [OF mt(2) assms(4,5,6) ch, of "snd mounted"] show ?thesis
      by (simp add: assms(9,11) 1)
  qed
  then have 4: "root_style (snd updated) = (root_style d)(''color-scheme'' := v')" by simp
  have 5: "root_style (snd (unmount (fst updated) (snd updated))) = root_style d"
    using u by (simp add: unmount_root_style [of "fst updated" "root_style d ''color-scheme''"])
  have ch: "fx_mode (committed (fst mounted)) \<noteq> fx_mode sc'' \<or>
         fx_systemMode (committed (fst mounted)) \<noteq> fx_systemMode sc'' \<or>
         fx_enableColorScheme (committed (fst mounted)) \<noteq> fx_enableColorScheme sc''"
    using assms(3,7) by (auto simp add: mt(3))
  have 6: "root_style (snd (update (fst mounted) sc'' (snd mounted))) = root_style d"
    using assms(7) by (simp add: update_root_style_off [OF mt(2) _ ch] 1)
  from 1 2 3 4 5 6 show ?thesis by blast
qed

text \<open>
  Claim C5 as stated fails: a mode other than \<^verbatim>\<open>light\<close>, \<^verbatim>\<open>dark\<close> and \<^verbatim>\<open>system\<close>, such as the
  \<^verbatim>\<open>auto\<close> of the comment on line 91, is written as it is.
\<close>

theorem color_scheme_property_auto:
  "root_style (snd (mount auto_scope empty_document)) ''color-scheme'' = ''auto''
   \<and> fx_mode auto_scope = Some ''auto'' \<and> fx_enableColorScheme auto_scope"
  by code_simp


theorem color_scheme_property_witness:
  "root_style (snd (mount day_scope empty_document)) ''color-scheme'' = ''light''
   \<and> root_style (snd (update (fst (mount day_scope empty_document)) night_scope
                        (snd (mount day_scope empty_document)))) ''color-scheme'' = ''dark''
   \<and> root_style (snd (unmount
        (fst (update (fst (mount day_scope empty_document)) night_scope
                (snd (mount day_scope empty_document))))
        (snd (update (fst (mount day_scope empty_document)) night_scope
                (snd (mount day_scope empty_document)))))) ''color-scheme'' = []
   \<and> root_style (snd (update (fst (mount day_scope empty_document))
                        (day_scope\<lparr>fx_enableColorScheme := False\<rparr>)
                        (snd (mount day_scope empty_document)))) ''color-scheme'' = []"
proof -
  have a: "fx_mode day_scope = Some ''light''" "''light'' \<noteq> []" "fx_enableColorScheme day_scope"
    "fx_mode night_scope = Some ''dark''" "''dark'' \<noteq> []" "fx_enableColorScheme night_scope"
    "\<not> fx_enableColorScheme (day_scope\<lparr>fx_enableColorScheme := False\<rparr>)"
    by (simp_all add: day_scope_def night_scope_def)
  from color_scheme_property [OF a refl refl refl refl, of empty_document]
  show ?thesis by (simp add: empty_document_def)
qed

subsection \<open>The transition rule\<close>

lemma head_color_scheme_effect [simp]:
  "head (fst (color_scheme_effect m sm en d)) = head d"
  "timeouts (fst (color_scheme_effect m sm en d)) = timeouts d"
  "style_reads (fst (color_scheme_effect m sm en d)) = style_reads d"
  "next_id (fst (color_scheme_effect m sm en d)) = next_id d"
  by (simp_all add: color_scheme_effect_def setProperty_def Let_def)

lemma head_color_scheme_cleanup [simp]:
  "head (color_scheme_cleanup c d) = head d"
  "timeouts (color_scheme_cleanup c d) = timeouts d"
  "style_reads (color_scheme_cleanup c d) = style_reads d"
  "next_id (color_scheme_cleanup c d) = next_id d"
  by (simp_all add: color_scheme_cleanup_def setProperty_def split: option.splits)

lemma head_attribute_effect [simp]:
  "head (attribute_effect cs a d) = head d"
  "timeouts (attribute_effect cs a d) = timeouts d"
  "style_reads (attribute_effect cs a d) = style_reads d"
  "next_id (attribute_effect cs a d) = next_id d"
  by (simp_all add: attribute_effect_def setAttribute_def split: option.splits)

lemma transition_effect_idle:
  "\<not> (b \<and> h) \<Longrightarrow> transition_effect b h d = (d, None)"
  by (auto simp add: transition_effect_def)

lemma filter_fresh:
  "list_all (\<lambda>e. el_id e < n) es \<Longrightarrow> filter (\<lambda>x. el_id x \<noteq> n) es = es"
  by (induction es) auto

lemma transition_effect_runs:
  assumes "list_all (\<lambda>e. el_id e < next_id d) (head d)"
  shows "head (fst (transition_effect True True d)) = head d @ [transition_style (next_id d)]"
    and "style_reads (fst (transition_effect True True d)) =
           style_reads d @ [head d @ [transition_style (next_id d)]]"
    and "timeouts (fst (transition_effect True True d)) =
           timeouts d @ [(Suc (next_id d), 1, next_id d)]"
    and "snd (transition_effect True True d) = Some (Suc (next_id d))"
  using assms
  by (simp_all add: transition_effect_def Let_def createElement_def appendText_def
      head_appendChild_def getComputedStyle_def setTimeout_def transition_style_def filter_fresh)

lemma find_fresh:
  "list_all (\<lambda>t. fst t < (n::nat)) ts \<Longrightarrow>
     find (\<lambda>x. fst x = n) (ts @ rest) = find (\<lambda>x. fst x = n) rest"
proof (induction ts)
  case Nil
  show ?case by simp
next
  case (Cons t ts)
  then have "fst t < n" by simp
  then have "fst t \<noteq> n" by simp
  with Cons show ?case by simp
qed

lemma filter_fresh_timeouts:
  "list_all (\<lambda>t. fst t < (n::nat)) ts \<Longrightarrow> filter (\<lambda>y. fst y \<noteq> n) ts = ts"
proof (induction ts)
  case Nil
  show ?case by simp
next
  case (Cons t ts)
  then have "fst t < n" by simp
  then have "fst t \<noteq> n" by simp
  with Cons show ?case by simp
qed

lemma list_all_filter: "list_all P xs \<Longrightarrow> list_all P (filter Q xs)"
  by (induction xs) auto

lemma list_all_less_Suc: "list_all (\<lambda>t. fst t < (n::nat)) ts \<Longrightarrow> list_all (\<lambda>t. fst t < Suc n) ts"
  by (induction ts) auto


lemma mount_head:
  "head (snd (mount sc d)) = head d \<and> timeouts (snd (mount sc d)) = timeouts d
   \<and> style_reads (snd (mount sc d)) = style_reads d \<and> hasMounted (fst (mount sc d))"
  by (simp add: mount_def Let_def transition_effect_idle)

lemma update_hasMounted: "hasMounted (fst (update fb sc d)) = hasMounted fb"
  by (simp add: update_def Let_def)

lemma update_same_scheme:
  assumes "fx_colorScheme sc = fx_colorScheme (committed fb)"
    and "fx_disableTransitionOnChange sc = fx_disableTransitionOnChange (committed fb)"
  shows "head (snd (update fb sc d)) = head d \<and> timeouts (snd (update fb sc d)) = timeouts d
         \<and> style_reads (snd (update fb sc d)) = style_reads d"
  using assms by (simp add: update_def Let_def)

lemma clearTimeout_fields [simp]:
  "head (transition_cleanup t d) = head d"
  "style_reads (transition_cleanup t d) = style_reads d"
  "next_id (transition_cleanup t d) = next_id d"
  by (simp_all add: transition_cleanup_def clearTimeout_def split: option.splits)

lemma update_new_scheme:
  assumes wf: "well_formed d" and mounted: "hasMounted fb"
    and on: "fx_disableTransitionOnChange sc"
    and changed: "fx_colorScheme sc \<noteq> fx_colorScheme (committed fb)"
  shows "head (snd (update fb sc d)) = head d @ [transition_style (next_id d)]"
    and "style_reads (snd (update fb sc d)) = style_reads d @ [head d @ [transition_style (next_id d)]]"
    and "timeouts (snd (update fb sc d)) =
           timeouts (clearTimeout (timer_var fb) d) @ [(Suc (next_id d), 1, next_id d)]"
    and "timer_var (fst (update fb sc d)) = Some (Suc (next_id d))"
proof -
  define e2 where "e2 =
    (if fx_mode sc \<noteq> fx_mode (committed fb) \<or> fx_systemMode sc \<noteq> fx_systemMode (committed fb) \<or>
        fx_enableColorScheme sc \<noteq> fx_enableColorScheme (committed fb)
     then color_scheme_effect (fx_mode sc) (fx_systemMode sc) (fx_enableColorScheme sc)
            (color_scheme_cleanup (restore fb) d)
     else (d, restore fb))"
  define d2 where "d2 = attribute_effect (fx_colorScheme sc) (fx_attribute sc)
      (transition_cleanup (timer_var fb) (fst e2))"
  have u: "update fb sc d =
     (\<lparr>hasMounted = hasMounted fb, committed = sc, restore = snd e2,
       timer_var = snd (transition_effect True True d2)\<rparr>,
      fst (transition_effect True True d2))"
    using mounted on changed by (simp add: update_def Let_def e2_def d2_def)
  have e: "head (fst e2) = head d" "style_reads (fst e2) = style_reads d"
    "next_id (fst e2) = next_id d" "timeouts (fst e2) = timeouts d"
    by (simp_all add: e2_def)
  have h: "head d2 = head d" "style_reads d2 = style_reads d" "next_id d2 = next_id d"
    by (simp_all add: d2_def e)
  have t: "timeouts d2 = timeouts (clearTimeout (timer_var fb) d)"
    by (simp add: d2_def transition_cleanup_def clearTimeout_def e split: option.splits)
  have fresh: "list_all (\<lambda>e. el_id e < next_id d2) (head d2)"
    using wf by (simp add: well_formed_def h)
  show "head (snd (update fb sc d)) = head d @ [transition_style (next_id d)]"
    using transition_effect_runs(1) [OF fresh] by (simp add: u h)
  show "style_reads (snd (update fb sc d)) = style_reads d @ [head d @ [transition_style (next_id d)]]"
    using transition_effect_runs(2) [OF fresh] by (simp add: u h)
  show "timeouts (snd (update fb sc d)) =
           timeouts (clearTimeout (timer_var fb) d) @ [(Suc (next_id d), 1, next_id d)]"
    using transition_effect_runs(3) [OF fresh] by (simp add: u h t)
  show "timer_var (fst (update fb sc d)) = Some (Suc (next_id d))"
    using transition_effect_runs(4) [OF fresh] by (simp add: u h)
qed

lemma timeouts_clear_fresh:
  "list_all (\<lambda>t. fst t < n) (timeouts d) \<Longrightarrow> list_all (\<lambda>t. fst t < n) (timeouts (clearTimeout t d))"
  by (simp add: clearTimeout_def list_all_filter split: option.splits)

lemma fire_removes:
  assumes "list_all (\<lambda>e. el_id e < n) es" and "list_all (\<lambda>t. fst t < Suc n) ts"
    and "head d = es @ [transition_style n]" and "timeouts d = ts @ [(Suc n, 1, n)]"
  shows "fire (Suc n) d = Inr (d\<lparr>timeouts := ts, head := es\<rparr>)"
  using assms
  by (simp add: fire_def find_fresh filter_fresh_timeouts head_removeChild_def
      transition_style_def filter_fresh)

text \<open>
  What holds of the transition rule. The effects of the first commit leave the head of
  the document, the pending timeouts and the style reads as they were, whatever
  \<^verbatim>\<open>disableTransitionOnChange\<close> is: \<^verbatim>\<open>hasMounted.current\<close> is still \<^verbatim>\<open>false\<close> when the
  transition effect runs, and \<^verbatim>\<open>true\<close> afterwards. At a later commit, with
  \<^verbatim>\<open>disableTransitionOnChange\<close> on before and after, the head changes only if \<^verbatim>\<open>colorScheme\<close>
  differs from the last commit. Then a new \<^verbatim>\<open>style\<close> element holding the rule is appended
  to the head, \<^verbatim>\<open>getComputedStyle\<close> is called with the element in place, and a timeout
  with delay 1 is pending; if it fires, the element is removed and the head is as
  before.
\<close>

lemma transition_rule_after_mount:
  assumes "well_formed d" and "hasMounted fb"
    and "fx_disableTransitionOnChange (committed fb)" and "fx_disableTransitionOnChange sc"
  shows "(head (snd (mount sc0 d0)) = head d0 \<and> timeouts (snd (mount sc0 d0)) = timeouts d0
          \<and> style_reads (snd (mount sc0 d0)) = style_reads d0 \<and> hasMounted (fst (mount sc0 d0)))
       \<and> hasMounted (fst (update fb sc d))
       \<and> (if fx_colorScheme sc = fx_colorScheme (committed fb)
          then head (snd (update fb sc d)) = head d
               \<and> timeouts (snd (update fb sc d)) = timeouts d
               \<and> style_reads (snd (update fb sc d)) = style_reads d
          else head (snd (update fb sc d)) = head d @ [transition_style (next_id d)]
               \<and> style_reads (snd (update fb sc d)) =
                   style_reads d @ [head d @ [transition_style (next_id d)]]
               \<and> timeouts (snd (update fb sc d)) =
                   timeouts (clearTimeout (timer_var fb) d) @ [(Suc (next_id d), 1, next_id d)]
               \<and> timer_var (fst (update fb sc d)) = Some (Suc (next_id d))
               \<and> (\<exists>d'. fire (Suc (next_id d)) (snd (update fb sc d)) = Inr d'
                      \<and> head d' = head d
                      \<and> timeouts d' = timeouts (clearTimeout (timer_var fb) d)))"
proof -
  have same: "head (snd (update fb sc d)) = head d
               \<and> timeouts (snd (update fb sc d)) = timeouts d
               \<and> style_reads (snd (update fb sc d)) = style_reads d"
    if "fx_colorScheme sc = fx_colorScheme (committed fb)"
    using update_same_scheme [OF that] assms(3,4) by simp
  have new: "head (snd (update fb sc d)) = head d @ [transition_style (next_id d)]
               \<and> style_reads (snd (update fb sc d)) =
                   style_reads d @ [head d @ [transition_style (next_id d)]]
               \<and> timeouts (snd (update fb sc d)) =
                   timeouts (clearTimeout (timer_var fb) d) @ [(Suc (next_id d), 1, next_id d)]
               \<and> timer_var (fst (update fb sc d)) = Some (Suc (next_id d))
               \<and> (\<exists>d'. fire (Suc (next_id d)) (snd (update fb sc d)) = Inr d'
                      \<and> head d' = head d
                      \<and> timeouts d' = timeouts (clearTimeout (timer_var fb) d))"
    if changed: "fx_colorScheme sc \<noteq> fx_colorScheme (committed fb)"
  proof -
    note u = update_new_scheme [OF assms(1,2,4) changed]
    have es: "list_all (\<lambda>e. el_id e < next_id d) (head d)"
      using assms(1) by (simp add: well_formed_def)
    have "list_all (\<lambda>t. fst t < next_id d) (timeouts (clearTimeout (timer_var fb) d))"
      using assms(1) by (simp add: well_formed_def timeouts_clear_fresh)
    then have ts: "list_all (\<lambda>t. fst t < Suc (next_id d)) (timeouts (clearTimeout (timer_var fb) d))"
      by (rule list_all_less_Suc)
    have "fire (Suc (next_id d)) (snd (update fb sc d)) =
            Inr ((snd (update fb sc d))\<lparr>timeouts := timeouts (clearTimeout (timer_var fb) d),
                                         head := head d\<rparr>)"
      by (rule fire_removes [OF es ts u(1) u(3)])
    then show ?thesis using u by simp
  qed
  show ?thesis
    using mount_head [of sc0 d0] update_hasMounted [of fb sc d] assms(2) same new by simp
qed

lemma transition_rule_at_first_change:
  "well_formed (snd (mount day_scope empty_document))
   \<and> hasMounted (fst (mount day_scope empty_document))
   \<and> fx_disableTransitionOnChange day_scope \<and> fx_disableTransitionOnChange night_scope
   \<and> head (snd (mount day_scope empty_document)) = []
   \<and> head (snd (update (fst (mount day_scope empty_document)) night_scope
                (snd (mount day_scope empty_document)))) = [transition_style 0]
   \<and> (\<exists>d'. fire 1 (snd (update (fst (mount day_scope empty_document)) night_scope
                (snd (mount day_scope empty_document)))) = Inr d' \<and> head d' = [])"
proof -
  have m: "mount day_scope empty_document =
      (\<lparr>hasMounted = True, committed = day_scope, restore = Some [], timer_var = None\<rparr>,
       empty_document\<lparr>root_style := (\<lambda>name. [])(''color-scheme'' := ''light''),
         root_attributes := [''data-color-scheme'' \<mapsto> ''light'']\<rparr>)"
    by (simp add: mount_def day_scope_def empty_document_def Let_def color_scheme_effect_def
        attribute_effect_def transition_effect_def setProperty_def getPropertyValue_def
        setAttribute_def)
  have wf: "well_formed (snd (mount day_scope empty_document))"
    unfolding m well_formed_def by (simp add: empty_document_def)
  have ne: "fx_colorScheme night_scope \<noteq> fx_colorScheme (committed (fst (mount day_scope empty_document)))"
    unfolding m by (simp add: night_scope_def day_scope_def)
  have on: "fx_disableTransitionOnChange day_scope" "fx_disableTransitionOnChange night_scope"
    by (simp_all add: night_scope_def day_scope_def)
  have hd: "head (snd (mount day_scope empty_document)) = []"
    "next_id (snd (mount day_scope empty_document)) = 0"
    "hasMounted (fst (mount day_scope empty_document))"
    "committed (fst (mount day_scope empty_document)) = day_scope"
    unfolding m by (simp_all add: empty_document_def)
  show ?thesis
    using transition_rule_after_mount [of "snd (mount day_scope empty_document)"
        "fst (mount day_scope empty_document)" night_scope day_scope empty_document] wf ne on
    by (auto simp add: hd)
qed

text \<open>
  Claim C3. The rule is not appended at the mount and is appended at the changes of
  the color scheme after it, as shown above; but the element is not always removed
  one tick later. The cleanup of the transition effect clears the pending timeout and
  leaves the element in the head. When the color scheme changes and changes back before
  the first timeout has fired, only the timeout of the second change is pending: the
  cleared one does nothing, the pending one removes the second element, and the first
  element stays. When the provider unmounts before the timeout has fired, nothing is
  pending and the element stays.
\<close>

theorem superseded_timeout_leaves_rule:
  "timeouts (snd twice_changed) = [(3, 1, 2)]
   \<and> map_sum id (\<lambda>d. (head d, timeouts d)) (fire 1 (snd twice_changed)) =
       Inr ([transition_style 0, transition_style 2], [(3, 1, 2)])
   \<and> map_sum id (\<lambda>d. (head d, timeouts d)) (fire 3 (snd twice_changed)) =
       Inr ([transition_style 0], [])
   \<and> head (snd changed_then_unmounted) = [transition_style 0]
   \<and> timeouts (snd changed_then_unmounted) = []"
  by code_simp

section \<open>The loop over the registry\<close>

lemma scheme_step_Inr:
  assumes "scheme_step deps opts p l (k, s) (th, ss) = Inr (th', ss')"
  shows "\<exists>r. parse deps opts p s = Inr r \<and> update_theme deps l k r th = Inr th'
            \<and> update_sheet deps opts p k r ss = Inr ss'"
proof (cases "parse deps opts p s")
  case (Inl e)
  with assms show ?thesis by (simp add: scheme_step_def)
next
  case (Inr r)
  show ?thesis
  proof (cases "update_theme deps l k r th")
    case (Inl e)
    with assms Inr show ?thesis by (simp add: scheme_step_def)
  next
    case th1: (Inr th1)
    show ?thesis
    proof (cases "update_sheet deps opts p k r ss")
      case (Inl e)
      with assms Inr th1 show ?thesis by (simp add: scheme_step_def)
    next
      case ss1: (Inr ss1)
      with assms Inr th1 have "th1 = th'" "ss1 = ss'" by (simp_all add: scheme_step_def)
      with Inr th1 ss1 show ?thesis by simp
    qed
  qed
qed

lemma update_sheet_Inr:
  assumes "update_sheet deps opts p k r ss = Inr ss'"
  shows "\<exists>dflt.
    resolvedDefaultColorScheme (prop_defaultColorScheme opts p) (prop_defaultMode opts p) = Inr dflt
    \<and> ss' = obj_set ss (selector_of dflt (prop_attribute deps p) k) (css r)"
proof (cases "resolvedDefaultColorScheme (prop_defaultColorScheme opts p) (prop_defaultMode opts p)")
  case (Inl e)
  with assms show ?thesis by (simp add: update_sheet_def)
next
  case (Inr dflt)
  with assms have "ss' = obj_set ss (selector_of dflt (prop_attribute deps p) k) (css r)"
    by (simp add: update_sheet_def selector_of_def split: if_splits)
  with Inr show ?thesis by simp
qed

lemma selector_of_inj: "selector_of dflt attr k = selector_of dflt attr k' \<Longrightarrow> k = k'"
  by (auto simp: selector_of_def attribute_selector_def split: if_splits)

lemma forEach_styleSheet_other:
  assumes "forEach (scheme_step deps opts p l) kvs (th, ss) = Inr (th', ss')"
    and "k \<notin> fst ` set kvs"
    and "resolvedDefaultColorScheme (prop_defaultColorScheme opts p) (prop_defaultMode opts p) = Inr dflt"
  shows "map_of ss' (selector_of dflt (prop_attribute deps p) k) =
         map_of ss (selector_of dflt (prop_attribute deps p) k)"
  using assms
proof (induction kvs arbitrary: th ss)
  case Nil
  then show ?case by simp
next
  case (Cons kv kvs)
  obtain k0 s0 where kv: "kv = (k0, s0)" by (cases kv)
  from Cons.prems(1) obtain th1 ss1 where
    step: "scheme_step deps opts p l (k0, s0) (th, ss) = Inr (th1, ss1)"
    and rest: "forEach (scheme_step deps opts p l) kvs (th1, ss1) = Inr (th', ss')"
    by (auto simp: kv split: sum.splits)
  from scheme_step_Inr [OF step] obtain r where us: "update_sheet deps opts p k0 r ss = Inr ss1"
    by blast
  from update_sheet_Inr [OF us] obtain dflt' where
    d': "resolvedDefaultColorScheme (prop_defaultColorScheme opts p) (prop_defaultMode opts p) = Inr dflt'"
    and ss1': "ss1 = obj_set ss (selector_of dflt' (prop_attribute deps p) k0) (css r)"
    by blast
  from d' Cons.prems(3) have "dflt' = dflt" by simp
  with ss1' have ss1: "ss1 = obj_set ss (selector_of dflt (prop_attribute deps p) k0) (css r)"
    by simp
  have "k \<noteq> k0" using Cons.prems(2) by (auto simp: kv)
  then have "selector_of dflt (prop_attribute deps p) k \<noteq> selector_of dflt (prop_attribute deps p) k0"
    using selector_of_inj by blast
  then have "map_of ss1 (selector_of dflt (prop_attribute deps p) k) =
      map_of ss (selector_of dflt (prop_attribute deps p) k)"
    by (simp add: ss1 map_of_obj_set)
  moreover have "map_of ss' (selector_of dflt (prop_attribute deps p) k) =
      map_of ss1 (selector_of dflt (prop_attribute deps p) k)"
    using Cons.IH [OF rest _ Cons.prems(3)] Cons.prems(2) by simp
  ultimately show ?case by simp
qed

lemma forEach_styleSheet:
  assumes "forEach (scheme_step deps opts p l) kvs (th, ss) = Inr (th', ss')"
    and "distinct (map fst kvs)" and "(k, s) \<in> set kvs"
  shows "\<exists>r dflt. parse deps opts p s = Inr r
           \<and> resolvedDefaultColorScheme (prop_defaultColorScheme opts p) (prop_defaultMode opts p) = Inr dflt
           \<and> map_of ss' (selector_of dflt (prop_attribute deps p) k) = Some (css r)"
  using assms
proof (induction kvs arbitrary: th ss)
  case Nil
  then show ?case by simp
next
  case (Cons kv kvs)
  obtain k0 s0 where kv: "kv = (k0, s0)" by (cases kv)
  from Cons.prems(1) obtain th1 ss1 where
    step: "scheme_step deps opts p l (k0, s0) (th, ss) = Inr (th1, ss1)"
    and rest: "forEach (scheme_step deps opts p l) kvs (th1, ss1) = Inr (th', ss')"
    by (auto simp: kv split: sum.splits)
  show ?case
  proof (cases "(k, s) = (k0, s0)")
    case True
    from scheme_step_Inr [OF step] obtain r where r: "parse deps opts p s0 = Inr r"
      and us: "update_sheet deps opts p k0 r ss = Inr ss1"
      by blast
    from update_sheet_Inr [OF us] obtain dflt where
      d: "resolvedDefaultColorScheme (prop_defaultColorScheme opts p) (prop_defaultMode opts p) = Inr dflt"
      and ss1: "ss1 = obj_set ss (selector_of dflt (prop_attribute deps p) k0) (css r)"
      by blast
    have "k0 \<notin> fst ` set kvs" using Cons.prems(2) by (simp add: kv)
    from forEach_styleSheet_other [OF rest this d]
    have "map_of ss' (selector_of dflt (prop_attribute deps p) k0) = Some (css r)"
      by (simp add: ss1 map_of_obj_set)
    with r d True show ?thesis by auto
  next
    case False
    then have "(k, s) \<in> set kvs" using Cons.prems(3) by (auto simp: kv)
    moreover have "distinct (map fst kvs)" using Cons.prems(2) by simp
    ultimately show ?thesis using Cons.IH [OF rest] by blast
  qed
qed


lemma assign_runtime_Inr:
  assumes "assign_runtime m res th = Inr th'"
  shows "fst ` set th' = fst ` set th"
    and "k \<noteq> ''palette'' \<Longrightarrow> map_of th' k = map_of th k"
    and "truthy (obj_get th ''palette'') \<Longrightarrow>
           get_prop (obj_get th' ''palette'') ''mode'' = Inr (of_str m) \<and>
           get_prop (obj_get th' ''palette'') ''colorScheme'' = Inr res"
    and "\<not> truthy (obj_get th ''palette'') \<Longrightarrow> th' = th"
proof -
  have key: "''palette'' \<in> fst ` set th" if "truthy (obj_get th ''palette'')"
  proof (rule ccontr)
    assume "''palette'' \<notin> fst ` set th"
    then have "map_of th ''palette'' = None" by (simp add: map_of_eq_None_iff)
    with that show False by (simp add: obj_get_def)
  qed
  show "fst ` set th' = fst ` set th"
  proof (cases "truthy (obj_get th ''palette'')")
    case True
    then obtain x where "th' = obj_set th ''palette'' x"
      using assms by (auto simp: assign_runtime_def split: sum.splits)
    then show ?thesis
      by (simp add: keys_obj_set insert_absorb key [OF True])
  next
    case False
    then show ?thesis using assms by (simp add: assign_runtime_def)
  qed
  show "k \<noteq> ''palette'' \<Longrightarrow> map_of th' k = map_of th k"
    using assms
    by (auto simp: assign_runtime_def map_of_obj_set split: if_splits sum.splits)
  show "\<not> truthy (obj_get th ''palette'') \<Longrightarrow> th' = th"
    using assms by (simp add: assign_runtime_def)
  show "get_prop (obj_get th' ''palette'') ''mode'' = Inr (of_str m) \<and>
           get_prop (obj_get th' ''palette'') ''colorScheme'' = Inr res"
    if t: "truthy (obj_get th ''palette'')"
  proof (cases "obj_get th ''palette''")
    case (JObj kvs)
    with assms t show ?thesis
      by (auto simp: assign_runtime_def obj_get_obj_set)
  next
    case (JFun src kvs)
    with assms t show ?thesis
      by (auto simp: assign_runtime_def obj_get_obj_set)
  qed (use assms t in \<open>auto simp: assign_runtime_def\<close>)
qed


lemma active_keys_Cons:
  "active_keys deps opts p name ((k, s) # kvs) =
     (if JStr k = name
      then (case parse deps opts p s of Inl e \<Rightarrow> [] | Inr r \<Rightarrow> map fst (parsedTheme r))
      else []) @ active_keys deps opts p name kvs"
  by (simp add: active_keys_def)

lemma active_keys_Nil: "active_keys deps opts p name [] = []"
  by (simp add: active_keys_def)

text \<open>One pass of the loop body, seen from the theme.\<close>

lemma update_theme_other:
  assumes "update_theme deps l k r th = Inr th'" and "JStr k \<noteq> resolved l"
  shows "th' = obj_set th ''vars'' (deepmerge deps (obj_get th ''vars'') (vars r))"
  using assms by (simp add: update_theme_def)

lemma update_theme_active:
  assumes "update_theme deps l k r th = Inr th'" and "JStr k = resolved l"
  shows "assign_runtime (mode (hook l)) (resolved l)
           (spread (obj_set th ''vars'' (deepmerge deps (obj_get th ''vars'') (vars r)))
              (parsedTheme r)) = Inr th'"
  using assms by (simp add: update_theme_def)


lemma update_theme_frame:
  assumes "update_theme deps l k r th = Inr th'" and "k' \<noteq> ''vars''"
    and "JStr k = resolved l \<Longrightarrow> k' \<noteq> ''palette'' \<and> k' \<notin> fst ` set (parsedTheme r)"
  shows "map_of th' k' = map_of th k'"
proof (cases "JStr k = resolved l")
  case True
  with assms(3) have "k' \<noteq> ''palette''" "k' \<notin> fst ` set (parsedTheme r)" by simp_all
  with assign_runtime_Inr(2) [OF update_theme_active [OF assms(1) True]] assms(2)
  show ?thesis by (simp add: map_of_spread_other map_of_obj_set)
next
  case False
  from update_theme_other [OF assms(1) False] assms(2)
  show ?thesis by (simp add: map_of_obj_set)
qed


lemma update_theme_palette:
  assumes "update_theme deps l k r th = Inr th'" and "JStr k = resolved l"
    and "truthy (obj_get th' ''palette'')"
  shows "get_prop (obj_get th' ''palette'') ''mode'' = Inr (of_str (mode (hook l))) \<and>
         get_prop (obj_get th' ''palette'') ''colorScheme'' = Inr (resolved l)"
proof -
  note a = update_theme_active [OF assms(1,2)]
  let ?th = "spread (obj_set th ''vars'' (deepmerge deps (obj_get th ''vars'') (vars r))) (parsedTheme r)"
  show ?thesis
  proof (cases "truthy (obj_get ?th ''palette'')")
    case True
    then show ?thesis by (rule assign_runtime_Inr(3) [OF a])
  next
    case False
    then have "th' = ?th" by (rule assign_runtime_Inr(4) [OF a])
    with False assms(3) show ?thesis by simp
  qed
qed


text \<open>The whole loop, seen from the theme.\<close>

lemma forEach_Cons_Inr:
  assumes "forEach (scheme_step deps opts p l) ((k, s) # kvs) (th, ss) = Inr (th', ss')"
  shows "\<exists>r th1 ss1. parse deps opts p s = Inr r \<and> update_theme deps l k r th = Inr th1
           \<and> update_sheet deps opts p k r ss = Inr ss1
           \<and> forEach (scheme_step deps opts p l) kvs (th1, ss1) = Inr (th', ss')"
proof (cases "scheme_step deps opts p l (k, s) (th, ss)")
  case (Inl e)
  with assms show ?thesis by simp
next
  case (Inr acc)
  obtain th1 ss1 where acc: "acc = (th1, ss1)" by (cases acc)
  from assms Inr have rest: "forEach (scheme_step deps opts p l) kvs (th1, ss1) = Inr (th', ss')"
    by (simp add: acc)
  from Inr have "scheme_step deps opts p l (k, s) (th, ss) = Inr (th1, ss1)"
    by (simp add: acc)
  from scheme_step_Inr [OF this] rest show ?thesis
    apply (elim exE conjE)
    apply (intro exI conjI)
       apply assumption+
    done
qed






lemma forEach_theme_inactive:
  assumes "forEach (scheme_step deps opts p l) kvs (th, ss) = Inr (th', ss')"
    and "\<And>k. k \<in> fst ` set kvs \<Longrightarrow> JStr k \<noteq> resolved l" and "k' \<noteq> ''vars''"
  shows "map_of th' k' = map_of th k'"
  using assms(1,2)
proof (induction kvs arbitrary: th ss)
  case Nil
  then show ?case by simp
next
  case (Cons kv kvs)
  obtain k s where kv: "kv = (k, s)" by (cases kv)
  from forEach_Cons_Inr [OF Cons.prems(1) [unfolded kv]] obtain r th1 ss1 where
    r: "parse deps opts p s = Inr r" and ut: "update_theme deps l k r th = Inr th1"
    and rest: "forEach (scheme_step deps opts p l) kvs (th1, ss1) = Inr (th', ss')"
    by blast
  have "JStr k \<noteq> resolved l" using Cons.prems(2) [of k] by (simp add: kv)
  then have "map_of th1 k' = map_of th k'"
    using update_theme_frame [OF ut assms(3)] by blast
  moreover have "map_of th' k' = map_of th1 k'"
    using Cons.IH [OF rest] Cons.prems(2) by simp
  ultimately show ?case by simp
qed

lemma forEach_theme_palette:
  assumes "forEach (scheme_step deps opts p l) kvs (th, ss) = Inr (th', ss')"
    and "distinct (map fst kvs)" and "(k, s) \<in> set kvs" and "JStr k = resolved l"
    and "truthy (obj_get th' ''palette'')"
  shows "get_prop (obj_get th' ''palette'') ''mode'' = Inr (of_str (mode (hook l))) \<and>
         get_prop (obj_get th' ''palette'') ''colorScheme'' = Inr (resolved l)"
  using assms(1,2,3)
proof (induction kvs arbitrary: th ss)
  case Nil
  then show ?case by simp
next
  case (Cons kv kvs)
  obtain k0 s0 where kv: "kv = (k0, s0)" by (cases kv)
  from forEach_Cons_Inr [OF Cons.prems(1) [unfolded kv]] obtain r th1 ss1 where
    r: "parse deps opts p s0 = Inr r" and ut: "update_theme deps l k0 r th = Inr th1"
    and rest: "forEach (scheme_step deps opts p l) kvs (th1, ss1) = Inr (th', ss')"
    by blast
  show ?case
  proof (cases "k0 = k")
    case True
    have "JStr k' \<noteq> resolved l" if "k' \<in> fst ` set kvs" for k'
    proof
      assume "JStr k' = resolved l"
      with assms(4) have "k' = k" by (metis jsval.inject(3))
      with that True Cons.prems(2) show False by (simp add: kv)
    qed
    from forEach_theme_inactive [OF rest this, of "''palette''"]
    have same: "obj_get th' ''palette'' = obj_get th1 ''palette''"
      by (simp add: obj_get_def)
    from update_theme_palette [OF ut] True assms(4,5) same
    show ?thesis by simp
  next
    case False
    then have "(k, s) \<in> set kvs" using Cons.prems(3) by (auto simp: kv)
    moreover have "distinct (map fst kvs)" using Cons.prems(2) by simp
    ultimately show ?thesis using Cons.IH [OF rest] by blast
  qed
qed


section \<open>One render\<close>

lemma locals_Inr:
  assumes "locals deps opts p = Inr l"
  shows "Object_entries (with_default (themeProp opts p) ''colorSchemes'') = Inr (entries l)"
    and "colorSchemes l = with_default (themeProp opts p) ''colorSchemes''"
    and "components l = with_default (themeProp opts p) ''components''"
    and "defaultLightColorScheme (prop_defaultColorScheme opts p) = Inr (defaultLight l)"
    and "defaultDarkColorScheme (prop_defaultColorScheme opts p) = Inr (defaultDark l)"
    and "hook l = useCurrentColorScheme deps (map fst (entries l)) (defaultLight l) (defaultDark l)
                    (prop_modeStorageKey deps p) (prop_defaultMode opts p)"
    and "resolved l = resolvedColorScheme (colorScheme (hook l)) (prop_defaultMode opts p)
                        (defaultLight l) (defaultDark l)"
proof -
  from assms obtain kvs light dark where
    1: "Object_entries (with_default (themeProp opts p) ''colorSchemes'') = Inr kvs"
    and 2: "defaultLightColorScheme (prop_defaultColorScheme opts p) = Inr light"
    and 3: "defaultDarkColorScheme (prop_defaultColorScheme opts p) = Inr dark"
    by (auto simp: locals_def Let_def split: sum.splits)
  from assms have l: "l = \<lparr>colorSchemes = with_default (themeProp opts p) ''colorSchemes'',
      components = with_default (themeProp opts p) ''components'',
      entries = kvs, defaultLight = light, defaultDark = dark,
      hook = useCurrentColorScheme deps (map fst kvs) light dark
               (prop_modeStorageKey deps p) (prop_defaultMode opts p),
      resolved = resolvedColorScheme
        (colorScheme (useCurrentColorScheme deps (map fst kvs) light dark
               (prop_modeStorageKey deps p) (prop_defaultMode opts p)))
        (prop_defaultMode opts p) light dark\<rparr>"
    by (simp add: locals_def Let_def 1 2 3)
  show "Object_entries (with_default (themeProp opts p) ''colorSchemes'') = Inr (entries l)"
    "colorSchemes l = with_default (themeProp opts p) ''colorSchemes''"
    "components l = with_default (themeProp opts p) ''components''"
    "defaultLightColorScheme (prop_defaultColorScheme opts p) = Inr (defaultLight l)"
    "defaultDarkColorScheme (prop_defaultColorScheme opts p) = Inr (defaultDark l)"
    "hook l = useCurrentColorScheme deps (map fst (entries l)) (defaultLight l) (defaultDark l)
                    (prop_modeStorageKey deps p) (prop_defaultMode opts p)"
    "resolved l = resolvedColorScheme (colorScheme (hook l)) (prop_defaultMode opts p)
                        (defaultLight l) (defaultDark l)"
    by (simp_all add: l 1 2 3)
qed

lemma CssVarsProvider_Inr:
  assumes "CssVarsProvider deps opts p = Inr out"
  shows "\<exists>l root ss.
           locals deps opts p = Inr l
           \<and> parse deps opts p (JObj (restThemeProp (themeProp opts p))) = Inr root
           \<and> forEach (scheme_step deps opts p l) (entries l) (initial_theme deps opts p l root, []) =
               Inr (merged out, ss)
           \<and> styleSheet out = ss
           \<and> rootStyles out = [('':root'', css root)]
           \<and> themeProvided out = (case resolveTheme opts of None \<Rightarrow> merged out | Some f \<Rightarrow> f (merged out))"
proof (cases "locals deps opts p")
  case (Inl e)
  with assms show ?thesis by (simp add: CssVarsProvider_def)
next
  case l: (Inr l)
  show ?thesis
  proof (cases "parse deps opts p (JObj (restThemeProp (themeProp opts p)))")
    case (Inl e)
    with assms l show ?thesis by (simp add: CssVarsProvider_def)
  next
    case root: (Inr root)
    show ?thesis
    proof (cases "forEach (scheme_step deps opts p l) (entries l) (initial_theme deps opts p l root, [])")
      case (Inl e)
      with assms l root show ?thesis by (simp add: CssVarsProvider_def)
    next
      case (Inr acc)
      with assms l root have acc: "fst acc = merged out" "snd acc = styleSheet out"
        by (auto simp: CssVarsProvider_def)
      from Inr assms l root have out: "rootStyles out = [('':root'', css root)]"
        "themeProvided out = (case resolveTheme opts of None \<Rightarrow> fst acc | Some f \<Rightarrow> f (fst acc))"
        by (auto simp: CssVarsProvider_def)
      have "acc = (merged out, styleSheet out)"
        using acc by (cases acc) simp
      with Inr have "forEach (scheme_step deps opts p l) (entries l) (initial_theme deps opts p l root, []) =
               Inr (merged out, styleSheet out)"
        by simp
      with l root out show ?thesis by (simp add: acc split: option.splits)
    qed
  qed
qed




lemma restThemeProp_other:
  "k \<noteq> ''colorSchemes'' \<Longrightarrow> k \<noteq> ''components'' \<Longrightarrow> map_of (restThemeProp tp) k = map_of tp k"
  by (induction tp) (auto simp: restThemeProp_def)

subsection \<open>When a render returns\<close>

text \<open>
  A render throws where line 65 lists the keys of \<^verbatim>\<open>null\<close>, where lines 67 and 69 read a
  member of a default color scheme that is \<^verbatim>\<open>undefined\<close> or \<^verbatim>\<open>null\<close>, where the parser throws,
  and where lines 137 and 138 assign to a palette that is a truthy primitive. The lemmas
  below lead to the converse: without any of these, the render returns.
\<close>

lemma set_prop_assignable:
  "assignable v \<Longrightarrow> \<exists>v'. set_prop v k x = Inr v' \<and> assignable v'"
  by (cases v) simp_all

lemma obj_get_spread:
  "obj_get (spread t s) k = obj_get t k \<or> (k, obj_get (spread t s) k) \<in> set s"
proof (induction s arbitrary: t)
  case Nil
  then show ?case by simp
next
  case (Cons q qs)
  from Cons.IH [of "obj_set t (fst q) (snd q)"]
  show ?case
  proof
    assume a: "obj_get (spread (obj_set t (fst q) (snd q)) qs) k = obj_get (obj_set t (fst q) (snd q)) k"
    show ?thesis
    proof (cases "fst q = k")
      case True
      with a have "obj_get (spread t (q # qs)) k = snd q" by (simp add: obj_get_obj_set)
      with True have "(k, obj_get (spread t (q # qs)) k) = q" by (cases q) auto
      then show ?thesis by simp
    next
      case False
      with a show ?thesis by (simp add: obj_get_def map_of_obj_set)
    qed
  next
    assume "(k, obj_get (spread (obj_set t (fst q) (snd q)) qs) k) \<in> set qs"
    then show ?thesis by simp
  qed
qed

lemma assign_runtime_returns:
  assumes "\<not> truthy (obj_get th ''palette'') \<or> assignable (obj_get th ''palette'')"
  shows "\<exists>th'. assign_runtime m res th = Inr th'
           \<and> (\<not> truthy (obj_get th' ''palette'') \<or> assignable (obj_get th' ''palette''))"
proof (cases "truthy (obj_get th ''palette'')")
  case False
  then show ?thesis by (simp add: assign_runtime_def)
next
  case True
  with assms have a: "assignable (obj_get th ''palette'')" by simp
  from set_prop_assignable [OF a, of "''mode''" "of_str m"] obtain pal where
    1: "set_prop (obj_get th ''palette'') ''mode'' (of_str m) = Inr pal" and 2: "assignable pal"
    by blast
  from set_prop_assignable [OF 2, of "''colorScheme''" res] obtain pal' where
    3: "set_prop pal ''colorScheme'' res = Inr pal'" and 4: "assignable pal'"
    by blast
  have "assign_runtime m res th = Inr (obj_set th ''palette'' pal')"
    using True 1 3 by (simp add: assign_runtime_def)
  with 4 show ?thesis by (simp add: obj_get_obj_set)
qed


lemma palette_of_parsed:
  assumes "list_all (\<lambda>kv. fst kv = ''palette'' \<longrightarrow> \<not> truthy (snd kv) \<or> assignable (snd kv)) kvs"
    and "(''palette'', v) \<in> set kvs"
  shows "\<not> truthy v \<or> assignable v"
  using assms by (auto simp: list_all_iff)

lemma obj_get_in_set:
  "obj_get kvs k \<noteq> JUndefined \<Longrightarrow> (k, obj_get kvs k) \<in> set kvs"
  by (auto simp: obj_get_def dest: map_of_SomeD split: option.splits)

lemma update_theme_returns:
  assumes "palette_ok th"
    and "list_all (\<lambda>kv. fst kv = ''palette'' \<longrightarrow> \<not> truthy (snd kv) \<or> assignable (snd kv))
           (parsedTheme r)"
  shows "\<exists>th'. update_theme deps l key r th = Inr th' \<and> palette_ok th'"
proof (cases "JStr key = resolved l")
  case False
  then have "update_theme deps l key r th =
      Inr (obj_set th ''vars'' (deepmerge deps (obj_get th ''vars'') (vars r)))"
    by (simp add: update_theme_def)
  moreover have "palette_ok (obj_set th ''vars'' (deepmerge deps (obj_get th ''vars'') (vars r)))"
    using assms(1) by (simp add: palette_ok_def obj_get_def map_of_obj_set)
  ultimately show ?thesis by simp
next
  case True
  let ?th = "obj_set th ''vars'' (deepmerge deps (obj_get th ''vars'') (vars r))"
  have old: "obj_get ?th ''palette'' = obj_get th ''palette''"
    by (simp add: obj_get_def map_of_obj_set)
  have "\<not> truthy (obj_get (spread ?th (parsedTheme r)) ''palette'')
        \<or> assignable (obj_get (spread ?th (parsedTheme r)) ''palette'')"
    using obj_get_spread [of ?th "parsedTheme r" "''palette''"]
  proof
    assume "obj_get (spread ?th (parsedTheme r)) ''palette'' = obj_get ?th ''palette''"
    with old assms(1) show ?thesis by (simp add: palette_ok_def)
  next
    assume "(''palette'', obj_get (spread ?th (parsedTheme r)) ''palette'') \<in> set (parsedTheme r)"
    with assms(2) show ?thesis by (rule palette_of_parsed)
  qed
  from assign_runtime_returns [OF this, of "mode (hook l)" "resolved l"] True
  show ?thesis by (simp add: update_theme_def palette_ok_def)
qed

lemma forEach_returns:
  assumes "palette_ok th"
    and "\<forall>v \<in> snd ` set kvs. parses_well deps opts p v"
    and "resolvedDefaultColorScheme (prop_defaultColorScheme opts p) (prop_defaultMode opts p) = Inr dflt"
  shows "\<exists>acc. forEach (scheme_step deps opts p l) kvs (th, ss) = Inr acc"
  using assms(1,2)
proof (induction kvs arbitrary: th ss)
  case Nil
  then show ?case by simp
next
  case (Cons kv kvs)
  from Cons.prems(2) have pw: "parses_well deps opts p (snd kv)" by simp
  then obtain r where r: "parse deps opts p (snd kv) = Inr r"
    and ok: "list_all (\<lambda>kv. fst kv = ''palette'' \<longrightarrow> \<not> truthy (snd kv) \<or> assignable (snd kv))
               (parsedTheme r)"
    by (cases "parse deps opts p (snd kv)") (simp_all add: parses_well_def)
  from update_theme_returns [OF Cons.prems(1) ok, of deps l "fst kv"] obtain th1 where
    th1: "update_theme deps l (fst kv) r th = Inr th1" and ok1: "palette_ok th1"
    by blast
  have "\<exists>ss1. update_sheet deps opts p (fst kv) r ss = Inr ss1"
    by (simp add: update_sheet_def assms(3))
  then obtain ss1 where ss1: "update_sheet deps opts p (fst kv) r ss = Inr ss1" by blast
  have step: "scheme_step deps opts p l kv (th, ss) = Inr (th1, ss1)"
    by (simp add: scheme_step_def r th1 ss1)
  from Cons.prems(2) have "\<forall>v \<in> snd ` set kvs. parses_well deps opts p v" by simp
  from Cons.IH [OF ok1 this, of ss1] step show ?case by simp
qed


lemma get_prop_returns:
  "v \<noteq> JUndefined \<Longrightarrow> v \<noteq> JNull \<Longrightarrow> \<exists>x. get_prop v k = Inr x"
  by (cases v) simp_all

lemma initial_theme_palette:
  "obj_get (initial_theme deps opts p l root) ''palette'' = obj_get (parsedTheme root) ''palette''"
  by (simp add: initial_theme_def obj_get_def map_of_obj_set)

lemma CssVarsProvider_returns:
  assumes "Object_entries (with_default (themeProp opts p) ''colorSchemes'') = Inr kvs"
    and "prop_defaultColorScheme opts p \<noteq> JUndefined" and "prop_defaultColorScheme opts p \<noteq> JNull"
    and "parses_well deps opts p (JObj (restThemeProp (themeProp opts p)))"
    and "\<forall>v \<in> snd ` set kvs. parses_well deps opts p v"
  shows "\<exists>out. CssVarsProvider deps opts p = Inr out \<and> allColorSchemes (provided out) = map fst kvs"
proof -
  let ?dcs = "prop_defaultColorScheme opts p"
  from get_prop_returns [OF assms(2,3)] obtain light where light: "get_prop ?dcs ''light'' = Inr light"
    by blast
  from get_prop_returns [OF assms(2,3)] obtain dark where dark: "get_prop ?dcs ''dark'' = Inr dark"
    by blast
  have "\<exists>dl. defaultLightColorScheme ?dcs = Inr dl"
    by (simp add: defaultLightColorScheme_def light)
  then obtain dl where dl: "defaultLightColorScheme ?dcs = Inr dl" by blast
  have "\<exists>dd. defaultDarkColorScheme ?dcs = Inr dd"
    by (simp add: defaultDarkColorScheme_def dark)
  then obtain dd where dd: "defaultDarkColorScheme ?dcs = Inr dd" by blast
  have "\<exists>dflt. resolvedDefaultColorScheme ?dcs (prop_defaultMode opts p) = Inr dflt"
    by (simp add: resolvedDefaultColorScheme_def light dark)
  then obtain dflt where dflt: "resolvedDefaultColorScheme ?dcs (prop_defaultMode opts p) = Inr dflt"
    by blast
  have "\<exists>l. locals deps opts p = Inr l \<and> entries l = kvs"
    by (simp add: locals_def Let_def assms(1) dl dd)
  then obtain l where l: "locals deps opts p = Inr l" and el: "entries l = kvs" by blast
  from assms(4) obtain root where
    root: "parse deps opts p (JObj (restThemeProp (themeProp opts p))) = Inr root"
    and ok: "list_all (\<lambda>kv. fst kv = ''palette'' \<longrightarrow> \<not> truthy (snd kv) \<or> assignable (snd kv))
               (parsedTheme root)"
    by (cases "parse deps opts p (JObj (restThemeProp (themeProp opts p)))")
       (simp_all add: parses_well_def)
  have "palette_ok (initial_theme deps opts p l root)"
  proof (cases "obj_get (parsedTheme root) ''palette'' = JUndefined")
    case True
    then show ?thesis by (simp add: palette_ok_def initial_theme_palette)
  next
    case False
    from palette_of_parsed [OF ok obj_get_in_set [OF False]]
    show ?thesis by (simp add: palette_ok_def initial_theme_palette)
  qed
  from forEach_returns [OF this assms(5) dflt, of l "[]"] obtain acc where
    acc: "forEach (scheme_step deps opts p l) kvs (initial_theme deps opts p l root, []) = Inr acc"
    by blast
  show ?thesis
    by (simp add: CssVarsProvider_def l root el acc)
qed


section \<open>The validation of the default color scheme\<close>

lemma registry_has_absent:
  assumes "name \<notin> fst ` set registry" and "\<not> truthy (inh (JObj registry) name)"
    and "to_string v = name"
  shows "\<not> registry_has inh (JObj registry) v"
  using assms by (simp add: registry_has_def index_prop_def)

text \<open>
  Claim C4, as amended. When the theme of the options has no \<^verbatim>\<open>colorSchemes\<close>, or when its
  \<^verbatim>\<open>colorSchemes\<close> is an object and the default color scheme is a string, or an object with
  a \<^verbatim>\<open>light\<close> or \<^verbatim>\<open>dark\<close> member (a string, or none), that names neither an own property of
  the registry nor a member the registry inherits, \<^verbatim>\<open>createCssVarsProvider\<close> logs the one
  diagnostic and returns the provider, the hook and the script generator. The default
  color scheme has no \<^verbatim>\<open>toString\<close> or \<^verbatim>\<open>valueOf\<close> of its own, so that the message is known. A render of the returned provider
  with the theme and the default color scheme of the options returns, and the returned
  hook reads under it what it provides, when the default color scheme is neither
  \<^verbatim>\<open>undefined\<close> nor \<^verbatim>\<open>null\<close>, the parser returns for the root theme and for every scheme of
  the registry, and no parsed palette is a truthy primitive.
\<close>

theorem missing_default_scheme_is_logged:
  fixes deps :: "('f, 'g) deps"
  assumes "th = (case theme opts of None \<Rightarrow> [] | Some t \<Rightarrow> t)"
    and "dcs = defaultColorScheme opts"
    and "obj_get th ''colorSchemes'' = JUndefined \<and> registry = [] \<or>
         obj_get th ''colorSchemes'' = JObj registry \<and>
           (dcs = JStr name \<or>
            (\<exists>m v. dcs = JObj m \<and> (v = obj_get m ''light'' \<or> v = obj_get m ''dark'') \<and>
               (v = JStr name \<or> v = JUndefined \<and> name = ''undefined''))) \<and>
           name \<notin> fst ` set registry \<and> \<not> truthy (inherited deps (JObj registry) name)"
    and "''toString'' \<notin> fst ` set (own_properties dcs)"
    and "''valueOf'' \<notin> fst ` set (own_properties dcs)"
  shows "fst (createCssVarsProvider deps opts) =
           [DoesNotExist (''MUI: `'' @ to_string dcs @ ''` does not exist in `theme.colorSchemes`.'')]
         \<and> (theme p = None \<and> defaultColorScheme p = JUndefined \<and> dcs \<noteq> JUndefined \<and> dcs \<noteq> JNull
             \<and> (\<forall>v \<in> insert (JObj (restThemeProp th)) (snd ` set registry). parses_well deps opts p v)
            \<longrightarrow> (\<exists>out. fst (snd (createCssVarsProvider deps opts)) p = Inr out
                    \<and> fst (snd (snd (createCssVarsProvider deps opts))) [provided out] =
                        Inr (provided out)
                    \<and> allColorSchemes (provided out) = map fst registry))"
proof -
  have dt: "defaultTheme opts = th"
    by (simp add: defaultTheme_def assms(1))
  have ds: "designSystemColorScheme opts = dcs"
    by (simp add: designSystemColorScheme_def assms(2))
  have "default_scheme_missing deps opts"
    using assms(3)
  proof
    assume "obj_get th ''colorSchemes'' = JUndefined \<and> registry = []"
    then show ?thesis by (simp add: default_scheme_missing_def Let_def dt)
  next
    assume a: "obj_get th ''colorSchemes'' = JObj registry \<and>
           (dcs = JStr name \<or>
            (\<exists>m v. dcs = JObj m \<and> (v = obj_get m ''light'' \<or> v = obj_get m ''dark'') \<and>
               (v = JStr name \<or> v = JUndefined \<and> name = ''undefined''))) \<and>
           name \<notin> fst ` set registry \<and> \<not> truthy (inherited deps (JObj registry) name)"
    then have absent: "\<not> registry_has (inherited deps) (JObj registry) v" if "to_string v = name" for v
      using registry_has_absent [OF _ _ that] by blast
    from a have "dcs = JStr name \<or>
            (\<exists>m v. dcs = JObj m \<and> (v = obj_get m ''light'' \<or> v = obj_get m ''dark'') \<and>
               (v = JStr name \<or> v = JUndefined \<and> name = ''undefined''))"
      by blast
    then show ?thesis
    proof
      assume s: "dcs = JStr name"
      then have "\<not> registry_has (inherited deps) (JObj registry) dcs"
        using absent [of dcs] by simp
      with a s show ?thesis
        by (simp add: default_scheme_missing_def Let_def dt ds)
    next
      assume "\<exists>m v. dcs = JObj m \<and> (v = obj_get m ''light'' \<or> v = obj_get m ''dark'') \<and>
               (v = JStr name \<or> v = JUndefined \<and> name = ''undefined'')"
      then obtain m v where m: "dcs = JObj m"
        and v: "v = obj_get m ''light'' \<or> v = obj_get m ''dark''"
        and n: "v = JStr name \<or> v = JUndefined \<and> name = ''undefined''"
        by blast
      from n have "to_string v = name" by auto
      then have "\<not> registry_has (inherited deps) (JObj registry) v" by (rule absent)
      with v have "\<not> registry_has (inherited deps) (JObj registry) (obj_get m ''light'') \<or>
                   \<not> registry_has (inherited deps) (JObj registry) (obj_get m ''dark'')"
        by auto
      with a m show ?thesis
        by (auto simp add: default_scheme_missing_def Let_def dt ds get_prop_opt_def)
    qed
  qed
  then have log: "fst (createCssVarsProvider deps opts) =
           [DoesNotExist (''MUI: `'' @ to_string dcs @ ''` does not exist in `theme.colorSchemes`.'')]"
    by (simp add: createCssVarsProvider_def validate_def ds)
  have render: "\<exists>out. fst (snd (createCssVarsProvider deps opts)) p = Inr out
                    \<and> fst (snd (snd (createCssVarsProvider deps opts))) [provided out] =
                        Inr (provided out)
                    \<and> allColorSchemes (provided out) = map fst registry"
    if p: "theme p = None" "defaultColorScheme p = JUndefined"
      and d: "dcs \<noteq> JUndefined" "dcs \<noteq> JNull"
      and pw: "\<forall>v \<in> insert (JObj (restThemeProp th)) (snd ` set registry). parses_well deps opts p v"
  proof -
    have tp: "themeProp opts p = th" by (simp add: themeProp_def p(1) dt)
    have pd: "prop_defaultColorScheme opts p = dcs"
      by (simp add: prop_defaultColorScheme_def p(2) ds)
    have en: "Object_entries (with_default (themeProp opts p) ''colorSchemes'') = Inr registry"
      using assms(3) by (auto simp add: tp with_default_def)
    have "parses_well deps opts p (JObj (restThemeProp (themeProp opts p)))"
      using pw by (simp add: tp)
    moreover have "\<forall>v \<in> snd ` set registry. parses_well deps opts p v"
      using pw by simp
    ultimately obtain out where out: "CssVarsProvider deps opts p = Inr out"
      and al: "allColorSchemes (provided out) = map fst registry"
      using CssVarsProvider_returns [OF en, of deps] d by (auto simp add: pd)
    show ?thesis
      by (simp add: createCssVarsProvider_def out al useColorScheme_def useContext_def)
  qed
  from log render show ?thesis by blast
qed

section \<open>The resolved color scheme, the style sheet and the merged theme\<close>

lemma CssVarsProvider_provided:
  assumes "CssVarsProvider deps opts p = Inr out" and "locals deps opts p = Inr l"
  shows "colorScheme (provided out) = colorScheme (hook l)"
    and "mode (provided out) = mode (hook l)"
  using assms by (auto simp add: CssVarsProvider_def split: sum.splits)

text \<open>
  Claim C9, as amended. In a render that returns and in which the hook gave \<^verbatim>\<open>undefined\<close>
  for \<^verbatim>\<open>colorScheme\<close>, the resolved color scheme is the default dark color scheme if the
  default mode is \<^verbatim>\<open>dark\<close> and the default light color scheme for every other default
  mode; the two are the default color scheme itself when that is a string, and its \<^verbatim>\<open>light\<close>
  and \<^verbatim>\<open>dark\<close> members when it is an object. When this value is the key of an entry of the
  registry (of distinct keys), the render is computed against that entry: its block is
  the one under \<^verbatim>\<open>:root\<close>, and a palette of the merged theme has its key as \<^verbatim>\<open>colorScheme\<close>.
  The default color scheme and the default mode are those of the props, and those of the
  options where the props have none.
\<close>

theorem resolved_fallback:
  assumes "CssVarsProvider deps opts p = Inr out" and "colorScheme (provided out) = None"
    and "tp = (case theme p of None \<Rightarrow> (case theme opts of None \<Rightarrow> [] | Some t \<Rightarrow> t) | Some t \<Rightarrow> t)"
    and "obj_get tp ''colorSchemes'' = JObj registry" and "distinct (map fst registry)"
    and "dcs = (if defaultColorScheme p = JUndefined then defaultColorScheme opts
                else defaultColorScheme p)"
    and "dm = (case defaultMode p of
                 None \<Rightarrow> (case defaultMode opts of None \<Rightarrow> ''light'' | Some x \<Rightarrow> x)
               | Some x \<Rightarrow> x)"
    and "(\<exists>s. dcs = JStr s \<and> light = JStr s \<and> dark = JStr s) \<or>
         (\<exists>m. dcs = JObj m \<and> light = obj_get m ''light'' \<and> dark = obj_get m ''dark'')"
    and "fallback = (if dm = ''dark'' then dark else light)"
    and "base = (case prefix opts of None \<Rightarrow> [] | Some x \<Rightarrow> x)"
    and "pre = (case prefix p of None \<Rightarrow> base | Some x \<Rightarrow> x)"
  shows "(\<exists>l. locals deps opts p = Inr l \<and> resolved l = fallback)
         \<and> (\<forall>k s. (k, s) \<in> set registry \<and> fallback = JStr k \<longrightarrow>
               (\<exists>r. cssVarsParser deps s pre base (shouldSkipGeneratingVar opts) = Inr r
                   \<and> map_of (styleSheet out) '':root'' = Some (css r))
               \<and> (truthy (obj_get (merged out) ''palette'') \<longrightarrow>
                    get_prop (obj_get (merged out) ''palette'') ''colorScheme'' = Inr (JStr k)))"
proof -
  from CssVarsProvider_Inr [OF assms(1)] obtain l root where l: "locals deps opts p = Inr l"
    and loop: "forEach (scheme_step deps opts p l) (entries l) (initial_theme deps opts p l root, []) =
               Inr (merged out, styleSheet out)"
    by auto
  note ls = locals_Inr [OF l]
  have tp: "themeProp opts p = tp"
    by (simp add: themeProp_def defaultTheme_def assms(3) split: option.splits)
  have "Object_entries (with_default (themeProp opts p) ''colorSchemes'') = Inr registry"
    by (simp add: tp with_default_def assms(4))
  with ls(1) have el: "entries l = registry" by simp
  have pd: "prop_defaultColorScheme opts p = dcs"
    by (simp add: prop_defaultColorScheme_def designSystemColorScheme_def assms(6))
  have pm: "prop_defaultMode opts p = dm"
    by (simp add: prop_defaultMode_def desisgnSystemMode_def assms(7) split: option.splits)
  have ps: "parse deps opts p s = cssVarsParser deps s pre base (shouldSkipGeneratingVar opts)" for s
    by (simp add: parse_def prop_prefix_def designSystemPrefix_def assms(10,11) split: option.splits)
  have dld: "defaultLight l = light \<and> defaultDark l = dark"
    using assms(8)
  proof (elim disjE exE conjE)
    fix s assume c: "dcs = JStr s" "light = JStr s" "dark = JStr s"
    have "defaultLight l = JStr s"
      using ls(4) unfolding pd c(1) defaultLightColorScheme_def by simp
    moreover have "defaultDark l = JStr s"
      using ls(5) unfolding pd c(1) defaultDarkColorScheme_def by simp
    ultimately show ?thesis by (simp add: c)
  next
    fix m assume c: "dcs = JObj m" "light = obj_get m ''light''" "dark = obj_get m ''dark''"
    have "defaultLight l = obj_get m ''light''"
      using ls(4) unfolding pd c(1) defaultLightColorScheme_def by simp
    moreover have "defaultDark l = obj_get m ''dark''"
      using ls(5) unfolding pd c(1) defaultDarkColorScheme_def by simp
    ultimately show ?thesis by (simp add: c)
  qed
  then have dl: "defaultLight l = light" and dd: "defaultDark l = dark" by simp_all
  have none: "colorScheme (hook l) = None"
    using CssVarsProvider_provided(1) [OF assms(1) l] assms(2) by simp
  have res: "resolved l = fallback"
    using ls(7) by (simp add: resolvedColorScheme_def none pm dl dd assms(9))
  have dflt: "resolvedDefaultColorScheme dcs dm = Inr fallback"
    using assms(8) by (auto simp add: resolvedDefaultColorScheme_def assms(9))
  have each: "(\<exists>r. cssVarsParser deps s pre base (shouldSkipGeneratingVar opts) = Inr r
                   \<and> map_of (styleSheet out) '':root'' = Some (css r))
               \<and> (truthy (obj_get (merged out) ''palette'') \<longrightarrow>
                    get_prop (obj_get (merged out) ''palette'') ''colorScheme'' = Inr (JStr k))"
    if ks: "(k, s) \<in> set registry" and fk: "fallback = JStr k" for k s
  proof -
    from forEach_styleSheet [OF loop [unfolded el] assms(5) ks] obtain r dflt' where
      r: "cssVarsParser deps s pre base (shouldSkipGeneratingVar opts) = Inr r"
      and d: "resolvedDefaultColorScheme dcs dm = Inr dflt'"
      and m: "map_of (styleSheet out) (selector_of dflt' (prop_attribute deps p) k) = Some (css r)"
      unfolding ps pd pm by blast
    from d dflt fk have "dflt' = JStr k" by simp
    with m have root: "map_of (styleSheet out) '':root'' = Some (css r)"
      by (simp add: selector_of_def)
    have act: "JStr k = resolved l" by (simp add: res fk)
    have "get_prop (obj_get (merged out) ''palette'') ''colorScheme'' = Inr (JStr k)"
      if "truthy (obj_get (merged out) ''palette'')"
      using forEach_theme_palette [OF loop [unfolded el] assms(5) ks act that] act by simp
    with r root show ?thesis by blast
  qed
  from l res each show ?thesis by blast
qed


lemma resolvedDefaultColorScheme_cases:
  "resolvedDefaultColorScheme (JStr d) dm = Inr (JStr d)"
  "resolvedDefaultColorScheme (JObj m) dm = Inr (obj_get m (if dm = ''dark'' then ''dark'' else ''light''))"
  by (simp_all add: resolvedDefaultColorScheme_def)

text \<open>
  Claim C2. In a render that returns, with a registry of distinct keys, the style sheet
  holds for every entry of the registry the CSS block the parser produced for its
  scheme: under \<^verbatim>\<open>:root\<close> for the entry whose key is the default color scheme (the string
  itself, or the \<^verbatim>\<open>dark\<close> member of the object form if the default mode is \<^verbatim>\<open>dark\<close> and the
  \<^verbatim>\<open>light\<close> member otherwise), and under the attribute selector built from its key,
  \<^verbatim>\<open>[attribute="key"]\<close>, for every other entry. In particular, with the schemes \<^verbatim>\<open>light\<close> and
  \<^verbatim>\<open>dark\<close> in the registry and the default color scheme \<^verbatim>\<open>light\<close>, as a string or as the
  \<^verbatim>\<open>light\<close> member with a default mode other than \<^verbatim>\<open>dark\<close>, the block of the light scheme is
  under \<^verbatim>\<open>:root\<close> and the block of the dark scheme under \<^verbatim>\<open>[attribute="dark"]\<close>. The theme, the
  default color scheme, the default mode, the attribute and the prefix are those of the
  props, and those of the options where the props have none.
\<close>

theorem styleSheet_selectors:
  assumes "CssVarsProvider deps opts p = Inr out"
    and "tp = (case theme p of None \<Rightarrow> (case theme opts of None \<Rightarrow> [] | Some t \<Rightarrow> t) | Some t \<Rightarrow> t)"
    and "obj_get tp ''colorSchemes'' = JObj registry" and "distinct (map fst registry)"
    and "dcs = (if defaultColorScheme p = JUndefined then defaultColorScheme opts
                else defaultColorScheme p)"
    and "dm = (case defaultMode p of
                 None \<Rightarrow> (case defaultMode opts of None \<Rightarrow> ''light'' | Some x \<Rightarrow> x)
               | Some x \<Rightarrow> x)"
    and "attr = (case attribute p of None \<Rightarrow> DEFAULT_ATTRIBUTE deps | Some a \<Rightarrow> a)"
    and "base = (case prefix opts of None \<Rightarrow> [] | Some x \<Rightarrow> x)"
    and "pre = (case prefix p of None \<Rightarrow> base | Some x \<Rightarrow> x)"
  shows "(\<forall>k s. (k, s) \<in> set registry \<longrightarrow>
            (\<exists>r. cssVarsParser deps s pre base (shouldSkipGeneratingVar opts) = Inr r
               \<and> (dcs = JStr k \<or>
                   (\<exists>m. dcs = JObj m \<and> obj_get m (if dm = ''dark'' then ''dark'' else ''light'') = JStr k)
                  \<longrightarrow> map_of (styleSheet out) '':root'' = Some (css r))
               \<and> ((\<exists>d. dcs = JStr d \<and> d \<noteq> k) \<or>
                   (\<exists>m. dcs = JObj m \<and> obj_get m (if dm = ''dark'' then ''dark'' else ''light'') \<noteq> JStr k)
                  \<longrightarrow> map_of (styleSheet out) (''['' @ attr @ ''='' @ [CHR 0x22] @ k @ [CHR 0x22] @ '']'') =
                        Some (css r))))
         \<and> (\<forall>s1 s2. (''light'', s1) \<in> set registry \<and> (''dark'', s2) \<in> set registry \<and>
               (dcs = JStr ''light'' \<or>
                (\<exists>m. dcs = JObj m \<and> obj_get m ''light'' = JStr ''light'' \<and> dm \<noteq> ''dark'')) \<longrightarrow>
               (\<exists>r1 r2. cssVarsParser deps s1 pre base (shouldSkipGeneratingVar opts) = Inr r1
                  \<and> cssVarsParser deps s2 pre base (shouldSkipGeneratingVar opts) = Inr r2
                  \<and> map_of (styleSheet out) '':root'' = Some (css r1)
                  \<and> map_of (styleSheet out)
                        (''['' @ attr @ ''='' @ [CHR 0x22] @ ''dark'' @ [CHR 0x22] @ '']'') =
                      Some (css r2)))"
proof -
  from CssVarsProvider_Inr [OF assms(1)] obtain l root where l: "locals deps opts p = Inr l"
    and loop: "forEach (scheme_step deps opts p l) (entries l) (initial_theme deps opts p l root, []) =
               Inr (merged out, styleSheet out)"
    by auto
  have tp: "themeProp opts p = tp"
    by (simp add: themeProp_def defaultTheme_def assms(2) split: option.splits)
  have "Object_entries (with_default (themeProp opts p) ''colorSchemes'') = Inr registry"
    by (simp add: tp with_default_def assms(3))
  with locals_Inr(1) [OF l] have el: "entries l = registry" by simp
  have pd: "prop_defaultColorScheme opts p = dcs"
    by (simp add: prop_defaultColorScheme_def designSystemColorScheme_def assms(5))
  have pm: "prop_defaultMode opts p = dm"
    by (simp add: prop_defaultMode_def desisgnSystemMode_def assms(6) split: option.splits)
  have pa: "prop_attribute deps p = attr"
    by (simp add: prop_attribute_def assms(7) split: option.splits)
  have ps: "parse deps opts p s = cssVarsParser deps s pre base (shouldSkipGeneratingVar opts)" for s
    by (simp add: parse_def prop_prefix_def designSystemPrefix_def assms(8,9) split: option.splits)
  have each: "\<exists>r. cssVarsParser deps s pre base (shouldSkipGeneratingVar opts) = Inr r
               \<and> (dcs = JStr k \<or>
                   (\<exists>m. dcs = JObj m \<and> obj_get m (if dm = ''dark'' then ''dark'' else ''light'') = JStr k)
                  \<longrightarrow> map_of (styleSheet out) '':root'' = Some (css r))
               \<and> ((\<exists>d. dcs = JStr d \<and> d \<noteq> k) \<or>
                   (\<exists>m. dcs = JObj m \<and> obj_get m (if dm = ''dark'' then ''dark'' else ''light'') \<noteq> JStr k)
                  \<longrightarrow> map_of (styleSheet out) (''['' @ attr @ ''='' @ [CHR 0x22] @ k @ [CHR 0x22] @ '']'') =
                        Some (css r))"
    if ks: "(k, s) \<in> set registry" for k s
  proof -
    from forEach_styleSheet [OF loop [unfolded el] assms(4) ks] obtain r dflt where
      r: "cssVarsParser deps s pre base (shouldSkipGeneratingVar opts) = Inr r"
      and d: "resolvedDefaultColorScheme dcs dm = Inr dflt"
      and m: "map_of (styleSheet out) (selector_of dflt attr k) = Some (css r)"
      unfolding ps pd pm pa by blast
    have root: "map_of (styleSheet out) '':root'' = Some (css r)"
      if "dcs = JStr k \<or>
          (\<exists>m. dcs = JObj m \<and> obj_get m (if dm = ''dark'' then ''dark'' else ''light'') = JStr k)"
    proof -
      from that d have "dflt = JStr k"
        by (auto simp add: resolvedDefaultColorScheme_cases)
      with m show ?thesis by (simp add: selector_of_def)
    qed
    have other: "map_of (styleSheet out) (''['' @ attr @ ''='' @ [CHR 0x22] @ k @ [CHR 0x22] @ '']'') =
                        Some (css r)"
      if "(\<exists>d. dcs = JStr d \<and> d \<noteq> k) \<or>
          (\<exists>m. dcs = JObj m \<and> obj_get m (if dm = ''dark'' then ''dark'' else ''light'') \<noteq> JStr k)"
    proof -
      from that d have "dflt \<noteq> JStr k"
        by (auto simp add: resolvedDefaultColorScheme_cases)
      with m show ?thesis by (simp add: selector_of_def attribute_selector_def)
    qed
    from r root other show ?thesis by blast
  qed
  have two: "\<exists>r1 r2. cssVarsParser deps s1 pre base (shouldSkipGeneratingVar opts) = Inr r1
                  \<and> cssVarsParser deps s2 pre base (shouldSkipGeneratingVar opts) = Inr r2
                  \<and> map_of (styleSheet out) '':root'' = Some (css r1)
                  \<and> map_of (styleSheet out)
                        (''['' @ attr @ ''='' @ [CHR 0x22] @ ''dark'' @ [CHR 0x22] @ '']'') =
                      Some (css r2)"
    if l1: "(''light'', s1) \<in> set registry" and l2: "(''dark'', s2) \<in> set registry"
      and df: "dcs = JStr ''light'' \<or>
                (\<exists>m. dcs = JObj m \<and> obj_get m ''light'' = JStr ''light'' \<and> dm \<noteq> ''dark'')"
    for s1 s2
  proof -
    from df have a: "dcs = JStr ''light'' \<or>
       (\<exists>m. dcs = JObj m \<and> obj_get m (if dm = ''dark'' then ''dark'' else ''light'') = JStr ''light'')"
      by auto
    from df have b: "(\<exists>d. dcs = JStr d \<and> d \<noteq> ''dark'') \<or>
       (\<exists>m. dcs = JObj m \<and> obj_get m (if dm = ''dark'' then ''dark'' else ''light'') \<noteq> JStr ''dark'')"
      by auto
    from each [OF l1] a obtain r1 where
      "cssVarsParser deps s1 pre base (shouldSkipGeneratingVar opts) = Inr r1"
      "map_of (styleSheet out) '':root'' = Some (css r1)"
      by blast
    moreover from each [OF l2] b obtain r2 where
      "cssVarsParser deps s2 pre base (shouldSkipGeneratingVar opts) = Inr r2"
      "map_of (styleSheet out) (''['' @ attr @ ''='' @ [CHR 0x22] @ ''dark'' @ [CHR 0x22] @ '']'') =
         Some (css r2)"
      by blast
    ultimately show ?thesis by blast
  qed
  from each two show ?thesis by blast
qed





section \<open>The claims at concrete inputs\<close>

text \<open>
  The renders below use the parser, the merge, the browser or the server state and the
  inherited members of the section on concrete imports.
\<close>

lemma map_sum_InrD: "map_sum id f x = Inr b \<Longrightarrow> \<exists>a. x = Inr a \<and> f a = b"
  by (cases x) auto

text \<open>
  Claim C4 as stated fails twice. The name \<^verbatim>\<open>constructor\<close> is no scheme of the registry,
  but every object inherits a member of that name, which line 33 finds: nothing is
  logged. And with a theme without \<^verbatim>\<open>colorSchemes\<close> and no default color scheme at all, the
  diagnostic is logged and the render throws, reading \<^verbatim>\<open>light\<close> of \<^verbatim>\<open>undefined\<close> on line 67.
\<close>

theorem default_scheme_inherited_or_unset:
  "fst (createCssVarsProvider browser_deps (options_of two_schemes (JStr ''constructor''))) = []
   \<and> map_sum id (map fst) (Object_entries (obj_get two_schemes ''colorSchemes'')) =
       Inr [''light'', ''dark'']
   \<and> fst (createCssVarsProvider browser_deps (options_of [] JUndefined)) =
       [DoesNotExist ''MUI: `undefined` does not exist in `theme.colorSchemes`.'']
   \<and> map_sum id (\<lambda>out. ())
       (fst (snd (createCssVarsProvider browser_deps (options_of [] JUndefined))) no_props) =
       Inl TypeError"
  by code_simp

text \<open>
  The default color scheme \<^verbatim>\<open>lite\<close> names nothing in a registry with \<^verbatim>\<open>light\<close> and \<^verbatim>\<open>dark\<close>: the
  diagnostic is logged and a render of the returned provider returns.
\<close>

theorem missing_default_scheme_is_logged_witness:
  "fst (createCssVarsProvider browser_deps (options_of two_schemes (JStr ''lite''))) =
     [DoesNotExist ''MUI: `lite` does not exist in `theme.colorSchemes`.'']
   \<and> (\<exists>out. fst (snd (createCssVarsProvider browser_deps (options_of two_schemes (JStr ''lite''))))
              no_props = Inr out
          \<and> allColorSchemes (provided out) = [''light'', ''dark''])"
proof -
  let ?o = "options_of two_schemes (JStr ''lite'')"
  let ?registry = "[(''light'', JObj [(''palette'', JObj [(''primary'', JStr ''blue'')])]),
          (''dark'', JObj [(''palette'', JObj [(''primary'', JStr ''navy'')])])]"
  have th: "two_schemes = (case theme ?o of None \<Rightarrow> [] | Some t \<Rightarrow> t)"
    by (simp add: options_of_def)
  have dcs: "JStr ''lite'' = defaultColorScheme ?o"
    by (simp add: options_of_def)
  have reg: "obj_get two_schemes ''colorSchemes'' = JObj ?registry"
    by (simp add: two_schemes_def obj_get_def)
  have inh: "\<not> truthy (inherited browser_deps (JObj ?registry) ''lite'')"
    by code_simp
  have pw: "\<forall>v \<in> insert (JObj (restThemeProp two_schemes)) (snd ` set ?registry).
              parses_well browser_deps ?o no_props v"
    by code_simp
  have np: "theme no_props = None" "defaultColorScheme no_props = JUndefined"
    by (simp_all add: no_props_def)
  have own: "''toString'' \<notin> fst ` set (own_properties (JStr ''lite''))"
    "''valueOf'' \<notin> fst ` set (own_properties (JStr ''lite''))"
    by code_simp+
  from missing_default_scheme_is_logged [OF th dcs _ own, of ?registry "''lite''" browser_deps no_props]
    reg inh pw np
  show ?thesis by auto
qed

text \<open>
  Claim C9 as stated fails for a default color scheme in the object form that lacks the
  member asked for: on the server, with the default mode \<^verbatim>\<open>dark\<close> and no \<^verbatim>\<open>dark\<close> member, the
  resolved color scheme is \<^verbatim>\<open>undefined\<close>, no entry of the registry is under \<^verbatim>\<open>:root\<close> and the
  merged theme has no palette.
\<close>

theorem resolved_fallback_missing_member:
  "map_sum id (\<lambda>l. (colorScheme (hook l), resolved l))
     (locals server_deps ((options_of two_schemes day_only)\<lparr>defaultMode := Some ''dark''\<rparr>) no_props) =
     Inr (None, JUndefined)
   \<and> map_sum id (\<lambda>out. (map_of (styleSheet out) '':root'', obj_get (merged out) ''palette''))
       (CssVarsProvider server_deps ((options_of two_schemes day_only)\<lparr>defaultMode := Some ''dark''\<rparr>)
          no_props) =
       Inr (None, JUndefined)"
  by code_simp


text \<open>
  Claim C9 on the server, with the default color scheme in its object form and the
  default mode \<^verbatim>\<open>dark\<close> given as a prop.
\<close>

theorem resolved_fallback_witness:
  "map_sum id (\<lambda>out. (colorScheme (provided out), map_of (styleSheet out) '':root'',
                       get_prop (obj_get (merged out) ''palette'') ''colorScheme''))
     (CssVarsProvider server_deps (options_of two_schemes day_and_night)
        (no_props\<lparr>defaultMode := Some ''dark''\<rparr>)) =
     Inr (None, Some (JStr ''--palette-primary:navy;''), Inr (JStr ''dark''))"
proof -
  let ?o = "options_of two_schemes day_and_night"
  let ?p = "no_props\<lparr>defaultMode := Some ''dark''\<rparr>"
  let ?light = "JObj [(''palette'', JObj [(''primary'', JStr ''blue'')])]"
  let ?dark = "JObj [(''palette'', JObj [(''primary'', JStr ''navy'')])]"
  let ?registry = "[(''light'', ?light), (''dark'', ?dark)]"
  have "map_sum id (\<lambda>out. (colorScheme (provided out), truthy (obj_get (merged out) ''palette'')))
          (CssVarsProvider server_deps ?o ?p) = Inr (None, True)"
    by code_simp
  from map_sum_InrD [OF this] obtain out where out: "CssVarsProvider server_deps ?o ?p = Inr out"
    and cs: "colorScheme (provided out) = None"
    and pal: "truthy (obj_get (merged out) ''palette'')"
    by auto
  have tp: "two_schemes =
      (case theme ?p of None \<Rightarrow> (case theme ?o of None \<Rightarrow> [] | Some t \<Rightarrow> t) | Some t \<Rightarrow> t)"
    by (simp add: no_props_def options_of_def)
  have reg: "obj_get two_schemes ''colorSchemes'' = JObj ?registry"
    by (simp add: two_schemes_def obj_get_def)
  have dist: "distinct (map fst ?registry)" by simp
  have dcs: "day_and_night =
      (if defaultColorScheme ?p = JUndefined then defaultColorScheme ?o else defaultColorScheme ?p)"
    by (simp add: no_props_def options_of_def)
  have dm: "''dark'' =
      (case defaultMode ?p of
         None \<Rightarrow> (case defaultMode ?o of None \<Rightarrow> ''light'' | Some x \<Rightarrow> x)
       | Some x \<Rightarrow> x)"
    by simp
  have form: "(\<exists>s. day_and_night = JStr s \<and> JStr ''light'' = JStr s \<and> JStr ''dark'' = JStr s) \<or>
      (\<exists>m. day_and_night = JObj m \<and> JStr ''light'' = obj_get m ''light''
          \<and> JStr ''dark'' = obj_get m ''dark'')"
    by (simp add: day_and_night_def obj_get_def)
  have fb: "JStr ''dark'' = (if ''dark'' = ''dark'' then JStr ''dark'' else JStr ''light'')"
    by simp
  have base: "[] = (case prefix ?o of None \<Rightarrow> [] | Some x \<Rightarrow> x)"
    by (simp add: options_of_def)
  have pre: "[] = (case prefix ?p of None \<Rightarrow> [] | Some x \<Rightarrow> x)"
    by (simp add: no_props_def)
  have sk: "shouldSkipGeneratingVar ?o = None"
    by (simp add: options_of_def)
  have pd: "map_sum id css (cssVarsParser server_deps ?dark [] [] None) =
              Inr (JStr ''--palette-primary:navy;'')"
    by code_simp
  from resolved_fallback [OF out cs tp reg dist dcs dm form fb base pre] pal
  have "(\<exists>r. cssVarsParser server_deps ?dark [] [] (shouldSkipGeneratingVar ?o) = Inr r
           \<and> map_of (styleSheet out) '':root'' = Some (css r))
        \<and> get_prop (obj_get (merged out) ''palette'') ''colorScheme'' = Inr (JStr ''dark'')"
    by fastforce
  with pd cs show ?thesis
    by (auto simp add: out sk)
qed

text \<open>
  The example of the spec for claim C2: two schemes \<^verbatim>\<open>light\<close> and \<^verbatim>\<open>dark\<close> and the attribute
  \<^verbatim>\<open>data-attr\<close>, with the default color scheme in its object form.
\<close>

theorem styleSheet_selectors_witness:
  "map_sum id (\<lambda>out. (map_of (styleSheet out) '':root'',
                       map_of (styleSheet out)
                         (''[data-attr='' @ [CHR 0x22] @ ''dark'' @ [CHR 0x22] @ '']'')))
     (CssVarsProvider browser_deps (options_of two_schemes day_and_night) attr_props) =
     Inr (Some (JStr ''--palette-primary:blue;''), Some (JStr ''--palette-primary:navy;''))"
proof -
  let ?o = "options_of two_schemes day_and_night"
  let ?light = "JObj [(''palette'', JObj [(''primary'', JStr ''blue'')])]"
  let ?dark = "JObj [(''palette'', JObj [(''primary'', JStr ''navy'')])]"
  let ?registry = "[(''light'', ?light), (''dark'', ?dark)]"
  have "\<not> isl (CssVarsProvider browser_deps ?o attr_props)"
    by code_simp
  then obtain out where out: "CssVarsProvider browser_deps ?o attr_props = Inr out"
    by (cases "CssVarsProvider browser_deps ?o attr_props") auto
  have tp: "two_schemes =
      (case theme attr_props of None \<Rightarrow> (case theme ?o of None \<Rightarrow> [] | Some t \<Rightarrow> t) | Some t \<Rightarrow> t)"
    by (simp add: attr_props_def no_props_def options_of_def)
  have reg: "obj_get two_schemes ''colorSchemes'' = JObj ?registry"
    by (simp add: two_schemes_def obj_get_def)
  have dist: "distinct (map fst ?registry)" by simp
  have dcs: "day_and_night =
      (if defaultColorScheme attr_props = JUndefined then defaultColorScheme ?o
       else defaultColorScheme attr_props)"
    by (simp add: attr_props_def no_props_def options_of_def)
  have dm: "''light'' =
      (case defaultMode attr_props of
         None \<Rightarrow> (case defaultMode ?o of None \<Rightarrow> ''light'' | Some x \<Rightarrow> x)
       | Some x \<Rightarrow> x)"
    by (simp add: attr_props_def no_props_def options_of_def)
  have attr: "''data-attr'' =
      (case attribute attr_props of None \<Rightarrow> DEFAULT_ATTRIBUTE browser_deps | Some a \<Rightarrow> a)"
    by (simp add: attr_props_def)
  have base: "[] = (case prefix ?o of None \<Rightarrow> [] | Some x \<Rightarrow> x)"
    by (simp add: options_of_def)
  have pre: "[] = (case prefix attr_props of None \<Rightarrow> [] | Some x \<Rightarrow> x)"
    by (simp add: attr_props_def no_props_def)
  have form: "day_and_night = JStr ''light'' \<or>
      (\<exists>m. day_and_night = JObj m \<and> obj_get m ''light'' = JStr ''light'' \<and> ''light'' \<noteq> ''dark'')"
    by (simp add: day_and_night_def obj_get_def)
  have sk: "shouldSkipGeneratingVar ?o = None"
    by (simp add: options_of_def)
  have pl: "map_sum id css (cssVarsParser browser_deps ?light [] [] None) =
              Inr (JStr ''--palette-primary:blue;'')"
    by code_simp
  have pd: "map_sum id css (cssVarsParser browser_deps ?dark [] [] None) =
              Inr (JStr ''--palette-primary:navy;'')"
    by code_simp
  from styleSheet_selectors [OF out tp reg dist dcs dm attr base pre] form
  obtain r1 r2 where
    "cssVarsParser browser_deps ?light [] [] (shouldSkipGeneratingVar ?o) = Inr r1"
    "cssVarsParser browser_deps ?dark [] [] (shouldSkipGeneratingVar ?o) = Inr r2"
    "map_of (styleSheet out) '':root'' = Some (css r1)"
    "map_of (styleSheet out) (''['' @ ''data-attr'' @ ''='' @ [CHR 0x22] @ ''dark'' @ [CHR 0x22] @ '']'') =
       Some (css r2)"
    by fastforce
  with pl pd show ?thesis
    by (simp add: out sk)
qed





end
